theory Spec2Isabelle
  imports Main
begin

section \<open>The schema converter of \<open>import.py\<close>\<close>

text \<open>
  \<open>import.py\<close> reads the schema of a graph database through two queries and builds
  the document \<open>{'classes': [...], 'relationships': [...]}\<close>. The database session,
  the logger, \<open>uuid.uuid4\<close> and \<open>random.randint\<close> are outside the program: the query
  results are arguments of the model, the two generators are parameters (\<open>entropy\<close>),
  and the logger calls are collected in the state.

  The methods keep their names without the leading underscore: \<open>make_class\<close>,
  \<open>make_rel\<close>, \<open>to_hume_type\<close>, \<open>random_canvas_position\<close>, \<open>populate_schema\<close>,
  \<open>collect_attributes\<close>; \<open>converter_init\<close> is \<open>Converter.__init__\<close> and \<open>main_output\<close>
  the script under \<open>__main__\<close>. A method returns its value or its exception
  (\<open>Inl\<close>), together with the state it leaves.
\<close>

subsection \<open>Input records\<close>

text \<open>
  A node of \<open>db.schema.visualization()\<close>: \<open>node.id\<close> and \<open>node['name']\<close>.
  A relationship: \<open>rel.nodes\<close> (a pair, start node then end node) and \<open>rel.type\<close>.
  A row of \<open>db.schema.nodeTypeProperties()\<close>: the four columns the code reads.
\<close>

record node =
  node_id :: int
  name :: string

record relation =
  nodes :: "node \<times> node"
  rel_type :: string

record property_record =
  nodeLabels :: "string list"
  propertyName :: string
  nodeType :: string
  propertyTypes :: "string list"

subsection \<open>Output records\<close>

text \<open>
  The dictionaries the code builds. A class dictionary has no key \<open>'attributes'\<close> until
  \<open>collect_attributes\<close> stores one, so the field is an option (\<open>None\<close>: key absent).
  The attribute dictionary \<open>{'label': ..., 'type': ...}\<close> is \<open>attribute\<close>; the
  relationship's keys \<open>'uuid'\<close> and \<open>'label'\<close> are \<open>rel_uuid\<close> and \<open>rel_label\<close>.
\<close>

record canvas_position =
  pos_x :: int
  pos_y :: int

record attribute =
  attr_label :: string
  attr_type :: string

record hume_class =
  label :: string
  canvasPosition :: canvas_position
  icon :: string
  color :: string
  uuid :: string
  attributes :: "attribute list option"

record hume_rel =
  rel_uuid :: string
  start :: string
  startLabel :: string
  endLabel :: string
  endId :: string
  rel_label :: string

record schema =
  classes :: "hume_class list"
  relationships :: "hume_rel list"

subsection \<open>Exceptions, log, state\<close>

datatype key = NodeId int | Label string

text \<open>
  \<open>KeyError\<close>: a dictionary subscript with a missing key (\<open>self._class_uuid[...]\<close>,
  \<open>classes[key]\<close>). \<open>IndexError\<close>: \<open>property_types[0]\<close> on an empty list.
\<close>

datatype error = KeyError key | IndexError

text \<open>The logger calls after the connection is made, with the values they format.\<close>

datatype log_entry =
    Info_got nat nat
  | Warning_multiple_labels string "string list"
  | Warning_multiple_property_types string "string list"
  | Warning_unsupported_type string string

text \<open>
  The generators: the \<open>n\<close>-th call of \<open>uuid.uuid4()\<close> of the run returns
  \<open>uuid4 e n\<close>, and the \<open>n\<close>-th call of \<open>random.randint\<close> draws \<open>random_draw e n\<close>.
\<close>

record entropy =
  uuid4 :: "nat \<Rightarrow> string"
  random_draw :: "nat \<Rightarrow> nat"

text \<open>
  The state of a run: \<open>self._class_uuid\<close>, how many values each generator has given,
  and what was logged.
\<close>

record conv_state =
  class_uuid :: "(int \<times> string) list"
  uuid_calls :: nat
  randint_calls :: nat
  logged :: "log_entry list"

subsection \<open>Dictionaries\<close>

text \<open>
  A Python \<open>dict\<close> keeps its keys in insertion order and \<open>list(d.values())\<close> reads
  them in that order, so a dictionary is an association list with one entry per key.
  \<open>d[k] = v\<close> replaces the value where the key is, or adds the entry at the end.
\<close>

fun dict_set :: "('k \<times> 'v) list \<Rightarrow> 'k \<Rightarrow> 'v \<Rightarrow> ('k \<times> 'v) list" where
  "dict_set [] k v = [(k, v)]"
| "dict_set ((k', v') # d) k v =
     (if k' = k then (k, v) # d else (k', v') # dict_set d k v)"

definition dict_get :: "('k \<times> 'v) list \<Rightarrow> 'k \<Rightarrow> 'v option" where
  "dict_get d k = map_of d k"

definition dict_values :: "('k \<times> 'v) list \<Rightarrow> 'v list" where
  "dict_values d = map snd d"

definition dict_keys :: "('k \<times> 'v) list \<Rightarrow> 'k list" where
  "dict_keys d = map fst d"

subsection \<open>Generators and logger\<close>

definition fresh_uuid :: "entropy \<Rightarrow> conv_state \<Rightarrow> string \<times> conv_state" where
  "fresh_uuid e s = (uuid4 e (uuid_calls s), s\<lparr>uuid_calls := Suc (uuid_calls s)\<rparr>)"

text \<open>\<open>random.randint(a, b)\<close> returns an integer of \<open>[a, b]\<close>.\<close>

definition randint :: "entropy \<Rightarrow> int \<Rightarrow> int \<Rightarrow> conv_state \<Rightarrow> int \<times> conv_state" where
  "randint e a b s =
     (a + int (random_draw e (randint_calls s)) mod (b - a + 1),
      s\<lparr>randint_calls := Suc (randint_calls s)\<rparr>)"

definition log_call :: "log_entry \<Rightarrow> conv_state \<Rightarrow> conv_state" where
  "log_call entry s = s\<lparr>logged := logged s @ [entry]\<rparr>"

subsection \<open>The converter\<close>

definition TYPES_MAPPING :: "(string \<times> string) list" where
  "TYPES_MAPPING =
     [(''String'', ''STRING''), (''Long'', ''NUMBER''), (''Double'', ''DOUBLE''),
      (''StringArray'', ''STRING''), (''Date'', ''DATE''), (''Point'', ''STRING''),
      (''Boolean'', ''BOOLEAN'')]"

definition random_canvas_position :: "entropy \<Rightarrow> conv_state \<Rightarrow> canvas_position \<times> conv_state" where
  "random_canvas_position e s =
     (let (x, s1) = randint e 100 1200 s;
          (y, s2) = randint e 50 800 s1
      in (\<lparr>pos_x = x, pos_y = y\<rparr>, s2))"

definition make_class :: "entropy \<Rightarrow> node \<Rightarrow> conv_state \<Rightarrow> hume_class \<times> conv_state" where
  "make_class e nd s =
     (let (class_uuid_new, s1) = fresh_uuid e s;
          s2 = s1\<lparr>class_uuid := dict_set (class_uuid s1) (node_id nd) class_uuid_new\<rparr>;
          (pos, s3) = random_canvas_position e s2
      in (\<lparr>label = name nd, canvasPosition = pos, icon = ''mdi-circle-outline'',
           color = ''#aaa'', uuid = class_uuid_new, attributes = None\<rparr>, s3))"

definition make_rel :: "entropy \<Rightarrow> relation \<Rightarrow> conv_state \<Rightarrow> (error + hume_rel) \<times> conv_state" where
  "make_rel e rel s =
     (let node_from = fst (nodes rel);
          node_to = snd (nodes rel);
          (rel_uuid_new, s1) = fresh_uuid e s
      in case dict_get (class_uuid s1) (node_id node_from) of
           None \<Rightarrow> (Inl (KeyError (NodeId (node_id node_from))), s1)
         | Some start_id \<Rightarrow>
             (case dict_get (class_uuid s1) (node_id node_to) of
                None \<Rightarrow> (Inl (KeyError (NodeId (node_id node_to))), s1)
              | Some end_id \<Rightarrow>
                  (Inr \<lparr>rel_uuid = rel_uuid_new, start = start_id,
                        startLabel = name node_from, endLabel = name node_to,
                        endId = end_id, rel_label = rel_type rel\<rparr>, s1)))"

text \<open>
  The two dictionary comprehensions of \<open>populate_schema\<close>, as loops over the records
  with the dictionary built so far.
\<close>

fun make_classes ::
  "entropy \<Rightarrow> node list \<Rightarrow> (string \<times> hume_class) list \<Rightarrow> conv_state
     \<Rightarrow> (string \<times> hume_class) list \<times> conv_state" where
  "make_classes e [] acc s = (acc, s)"
| "make_classes e (nd # nds) acc s =
     (let (c, s1) = make_class e nd s
      in make_classes e nds (dict_set acc (name nd) c) s1)"

fun make_rels ::
  "entropy \<Rightarrow> relation list \<Rightarrow> (string \<times> hume_rel) list \<Rightarrow> conv_state
     \<Rightarrow> (error + (string \<times> hume_rel) list) \<times> conv_state" where
  "make_rels e [] acc s = (Inr acc, s)"
| "make_rels e (rel # rels) acc s =
     (case make_rel e rel s of
        (Inl err, s1) \<Rightarrow> (Inl err, s1)
      | (Inr r, s1) \<Rightarrow> make_rels e rels (dict_set acc (rel_type rel) r) s1)"

definition populate_schema ::
  "entropy \<Rightarrow> node list \<Rightarrow> relation list \<Rightarrow> conv_state
     \<Rightarrow> (error + (string \<times> hume_class) list \<times> (string \<times> hume_rel) list) \<times> conv_state" where
  "populate_schema e schema_nodes schema_relationships s =
     (let (cs, s1) = make_classes e schema_nodes [] s
      in case make_rels e schema_relationships [] s1 of
           (Inl err, s2) \<Rightarrow> (Inl err, s2)
         | (Inr rs, s2) \<Rightarrow> (Inr (cs, rs), s2))"

definition to_hume_type :: "property_record \<Rightarrow> conv_state \<Rightarrow> (error + string) \<times> conv_state" where
  "to_hume_type nd s =
     (case propertyTypes nd of
        [] \<Rightarrow> (Inl IndexError, s)
      | property_type # _ \<Rightarrow>
          (let s1 = (if length (propertyTypes nd) > 1
                     then log_call (Warning_multiple_property_types (nodeType nd) (propertyTypes nd)) s
                     else s);
               s2 = (if dict_get TYPES_MAPPING property_type = None
                     then log_call (Warning_unsupported_type property_type (nodeType nd)) s1
                     else s1)
           in (Inr (case dict_get TYPES_MAPPING property_type of
                      None \<Rightarrow> ''STRING''
                    | Some t \<Rightarrow> t), s2)))"

text \<open>
  \<open>attributes_map.setdefault(label, []).append(a)\<close>: the list under \<open>label\<close> gets
  \<open>a\<close> at its end; a missing key is added with the list \<open>[a]\<close>.
\<close>

definition setdefault_append ::
  "(string \<times> attribute list) list \<Rightarrow> string \<Rightarrow> attribute \<Rightarrow> (string \<times> attribute list) list" where
  "setdefault_append attributes_map lbl a =
     (case dict_get attributes_map lbl of
        None \<Rightarrow> dict_set attributes_map lbl [a]
      | Some as \<Rightarrow> dict_set attributes_map lbl (as @ [a]))"

text \<open>The first loop of \<open>collect_attributes\<close>, over the property records.\<close>

fun gather_attributes ::
  "property_record list \<Rightarrow> (string \<times> attribute list) list \<Rightarrow> conv_state
     \<Rightarrow> (error + (string \<times> attribute list) list) \<times> conv_state" where
  "gather_attributes [] attributes_map s = (Inr attributes_map, s)"
| "gather_attributes (nd # rest) attributes_map s =
     (case nodeLabels nd of
        [lbl] \<Rightarrow>
          (case to_hume_type nd s of
             (Inl err, s1) \<Rightarrow> (Inl err, s1)
           | (Inr humeType, s1) \<Rightarrow>
               gather_attributes rest
                 (setdefault_append attributes_map lbl
                    \<lparr>attr_label = propertyName nd, attr_type = humeType\<rparr>) s1)
      | _ \<Rightarrow>
          gather_attributes rest attributes_map
            (log_call (Warning_multiple_labels (nodeType nd) (nodeLabels nd)) s))"

text \<open>
  The second loop: \<open>classes[key]['attributes'] = list(attributes)\<close> for every entry
  of \<open>attributes_map\<close>, in its order.
\<close>

fun attach_attributes ::
  "(string \<times> attribute list) list \<Rightarrow> (string \<times> hume_class) list
     \<Rightarrow> error + (string \<times> hume_class) list" where
  "attach_attributes [] cs = Inr cs"
| "attach_attributes ((k, as) # rest) cs =
     (case dict_get cs k of
        None \<Rightarrow> Inl (KeyError (Label k))
      | Some c \<Rightarrow> attach_attributes rest (dict_set cs k (c\<lparr>attributes := Some as\<rparr>)))"

text \<open>
  \<open>collect_attributes\<close> changes the dictionary it is given; the model returns the
  changed dictionary.
\<close>

definition collect_attributes ::
  "(string \<times> hume_class) list \<Rightarrow> property_record list \<Rightarrow> conv_state
     \<Rightarrow> (error + (string \<times> hume_class) list) \<times> conv_state" where
  "collect_attributes cs node_type_properties s =
     (case gather_attributes node_type_properties [] s of
        (Inl err, s1) \<Rightarrow> (Inl err, s1)
      | (Inr attributes_map, s1) \<Rightarrow> (attach_attributes attributes_map cs, s1))"

definition initial_state :: conv_state where
  "initial_state = \<lparr>class_uuid = [], uuid_calls = 0, randint_calls = 0, logged = []\<rparr>"

text \<open>
  \<open>Converter.__init__\<close> after the connection: the value is \<open>self.schema\<close>, or the
  exception that leaves the constructor.
\<close>

definition converter_init ::
  "entropy \<Rightarrow> node list \<Rightarrow> relation list \<Rightarrow> property_record list
     \<Rightarrow> (error + schema) \<times> conv_state" where
  "converter_init e schema_nodes schema_relationships node_type_properties =
     (case populate_schema e schema_nodes schema_relationships initial_state of
        (Inl err, s1) \<Rightarrow> (Inl err, s1)
      | (Inr (cs, rs), s1) \<Rightarrow>
          (let s2 = log_call (Info_got (length cs) (length rs)) s1
           in case collect_attributes cs node_type_properties s2 of
                (Inl err, s3) \<Rightarrow> (Inl err, s3)
              | (Inr cs', s3) \<Rightarrow>
                  (Inr \<lparr>classes = dict_values cs', relationships = dict_values rs\<rparr>, s3)))"

text \<open>
  The script: the file \<open>schema-generated.json\<close> is opened and written only after the
  constructor has returned. \<open>Some doc\<close> is the document written, \<open>None\<close> no file.
\<close>

definition main_output ::
  "entropy \<Rightarrow> node list \<Rightarrow> relation list \<Rightarrow> property_record list \<Rightarrow> schema option" where
  "main_output e schema_nodes schema_relationships node_type_properties =
     (case fst (converter_init e schema_nodes schema_relationships node_type_properties) of
        Inl err \<Rightarrow> None
      | Inr doc \<Rightarrow> Some doc)"

subsection \<open>Dictionary lemmas and loop invariants\<close>

lemma dict_get_set: "dict_get (dict_set d k v) k' = (if k' = k then Some v else dict_get d k')"
  by (induction d k v rule: dict_set.induct) (auto simp: dict_get_def)

lemma dict_keys_set:
  "dict_keys (dict_set d k v) = (if k \<in> set (dict_keys d) then dict_keys d else dict_keys d @ [k])"
  by (induction d k v rule: dict_set.induct) (auto simp: dict_keys_def)

lemma set_dict_set_subset: "set (dict_set d k v) \<subseteq> insert (k, v) (set d)"
  by (induction d k v rule: dict_set.induct) auto

lemma dict_get_None: "dict_get d k = None \<longleftrightarrow> k \<notin> set (dict_keys d)"
  by (simp add: dict_get_def dict_keys_def map_of_eq_None_iff)

lemma dict_get_Some_in: "dict_get d k = Some v \<Longrightarrow> (k, v) \<in> set d"
  by (simp add: dict_get_def map_of_SomeD)

lemma dict_get_Some_value: "dict_get d k = Some v \<Longrightarrow> v \<in> set (dict_values d)"
  by (auto simp: dict_get_def dict_values_def dest!: map_of_SomeD intro: rev_image_eqI)

lemma distinct_dict_set: "distinct (dict_keys d) \<Longrightarrow> distinct (dict_keys (dict_set d k v))"
  by (simp add: dict_keys_set)

lemma set_dict_keys_set: "set (dict_keys (dict_set d k v)) = insert k (set (dict_keys d))"
  by (auto simp: dict_keys_set)

lemma make_class_eq:
  "make_class e nd s =
     (\<lparr>label = name nd,
       canvasPosition = \<lparr>pos_x = 100 + int (random_draw e (randint_calls s)) mod 1101,
                         pos_y = 50 + int (random_draw e (Suc (randint_calls s))) mod 751\<rparr>,
       icon = ''mdi-circle-outline'', color = ''#aaa'', uuid = uuid4 e (uuid_calls s),
       attributes = None\<rparr>,
      s\<lparr>class_uuid := dict_set (class_uuid s) (node_id nd) (uuid4 e (uuid_calls s)),
        uuid_calls := Suc (uuid_calls s),
        randint_calls := Suc (Suc (randint_calls s))\<rparr>)"
  by (simp add: make_class_def fresh_uuid_def random_canvas_position_def randint_def)

lemma make_classes_keys:
  "make_classes e nds acc s = (cs, s') \<Longrightarrow>
     set (dict_keys cs) = set (dict_keys acc) \<union> name ` set nds"
  by (induction nds arbitrary: acc s) (auto simp: make_class_eq set_dict_keys_set)

lemma make_classes_distinct:
  "make_classes e nds acc s = (cs, s') \<Longrightarrow> distinct (dict_keys acc) \<Longrightarrow> distinct (dict_keys cs)"
  by (induction nds arbitrary: acc s) (auto simp: make_class_eq distinct_dict_set)

lemma make_classes_state:
  "make_classes e nds acc s = (cs, s') \<Longrightarrow>
     set (dict_keys (class_uuid s')) = set (dict_keys (class_uuid s)) \<union> node_id ` set nds \<and>
     uuid_calls s' = uuid_calls s + length nds \<and> logged s' = logged s"
  by (induction nds arbitrary: acc s) (auto simp: make_class_eq set_dict_keys_set)

lemma dict_set_values: "set (dict_values (dict_set d k v)) \<subseteq> insert v (set (dict_values d))"
  by (induction d k v rule: dict_set.induct) (auto simp: dict_values_def)

lemma make_classes_no_attributes:
  "make_classes e nds acc s = (cs, s') \<Longrightarrow> \<forall>c \<in> set (dict_values acc). attributes c = None \<Longrightarrow>
     \<forall>c \<in> set (dict_values cs). attributes c = None"
proof (induction nds arbitrary: acc s)
  case Nil
  then show ?case by simp
next
  case (Cons nd nds)
  obtain c s1 where mc: "make_class e nd s = (c, s1)" by (cases "make_class e nd s")
  then have "attributes c = None" by (auto simp: make_class_eq)
  with Cons.prems(2) have "\<forall>x \<in> set (dict_values (dict_set acc (name nd) c)). attributes x = None"
    using dict_set_values [of acc "name nd" c] by blast
  moreover from Cons.prems(1) mc have "make_classes e nds (dict_set acc (name nd) c) s1 = (cs, s')"
    by simp
  ultimately show ?case using Cons.IH by blast
qed

lemma dict_values_set_new: "k \<notin> set (dict_keys d) \<Longrightarrow> dict_values (dict_set d k v) = dict_values d @ [v]"
  by (induction d k v rule: dict_set.induct) (auto simp: dict_keys_def dict_values_def)

lemma distinct_values_dict_set:
  "distinct (map f (dict_values d)) \<Longrightarrow> f v \<notin> f ` set (dict_values d) \<Longrightarrow>
     distinct (map f (dict_values (dict_set d k v)))"
  by (induction d k v rule: dict_set.induct)
     (auto simp: dict_values_def dest!: set_mp [OF set_dict_set_subset])

lemma length_dict_keys: "length (dict_keys d) = length d"
  by (simp add: dict_keys_def)

lemma make_classes_ids_resolve:
  "make_classes e nds acc s = (cs, s') \<Longrightarrow> distinct (map name nds) \<Longrightarrow>
     name ` set nds \<inter> set (dict_keys acc) = {} \<Longrightarrow>
     set (dict_values (class_uuid s)) \<subseteq> uuid ` set (dict_values acc) \<Longrightarrow>
     set (dict_values (class_uuid s')) \<subseteq> uuid ` set (dict_values cs)"
proof (induction nds arbitrary: acc s)
  case Nil
  then show ?case by simp
next
  case (Cons nd nds)
  obtain c s1 where mc: "make_class e nd s = (c, s1)" by (cases "make_class e nd s")
  let ?acc1 = "dict_set acc (name nd) c"
  from mc have c: "uuid c = uuid4 e (uuid_calls s)"
    and s1: "class_uuid s1 = dict_set (class_uuid s) (node_id nd) (uuid4 e (uuid_calls s))"
    by (auto simp: make_class_eq)
  from Cons.prems(3) have new: "name nd \<notin> set (dict_keys acc)" by auto
  then have vals: "dict_values ?acc1 = dict_values acc @ [c]"
    by (rule dict_values_set_new)
  have "set (dict_values (class_uuid s1)) \<subseteq> insert (uuid c) (set (dict_values (class_uuid s)))"
    unfolding s1 c by (rule dict_set_values)
  with Cons.prems(4) have inv: "set (dict_values (class_uuid s1)) \<subseteq> uuid ` set (dict_values ?acc1)"
    unfolding vals by auto
  from Cons.prems(2,3) have disj: "name ` set nds \<inter> set (dict_keys ?acc1) = {}"
    by (auto simp: set_dict_keys_set)
  from Cons.prems(1) mc have "make_classes e nds ?acc1 s1 = (cs, s')" by simp
  from Cons.IH [OF this _ disj inv] Cons.prems(2) show ?case by simp
qed

lemma make_classes_append:
  "make_classes e (xs @ ys) acc s =
     (case make_classes e xs acc s of (a, s1) \<Rightarrow> make_classes e ys a s1)"
  by (induction xs arbitrary: acc s) (auto simp: make_class_eq)

lemma make_classes_get_other:
  "k \<notin> name ` set nds \<Longrightarrow> dict_get (fst (make_classes e nds acc s)) k = dict_get acc k"
  by (induction nds arbitrary: acc s) (auto simp: make_class_eq dict_get_set)

lemma in_dict_keys: "k \<in> set (dict_keys d) \<longleftrightarrow> (\<exists>v. dict_get d k = Some v)"
  using dict_get_None [of d k] by auto

lemma make_rel_state: "snd (make_rel e rel s) = s\<lparr>uuid_calls := Suc (uuid_calls s)\<rparr>"
  by (simp add: make_rel_def fresh_uuid_def Let_def split: option.splits)

lemma make_rel_Inr:
  "fst (make_rel e rel s) = Inr r \<longleftrightarrow>
     (\<exists>start_id end_id.
        dict_get (class_uuid s) (node_id (fst (nodes rel))) = Some start_id \<and>
        dict_get (class_uuid s) (node_id (snd (nodes rel))) = Some end_id \<and>
        r = \<lparr>rel_uuid = uuid4 e (uuid_calls s), start = start_id,
             startLabel = name (fst (nodes rel)), endLabel = name (snd (nodes rel)),
             endId = end_id, rel_label = rel_type rel\<rparr>)"
  by (auto simp: make_rel_def fresh_uuid_def Let_def split: option.splits)

lemma make_rel_Inl:
  "fst (make_rel e rel s) = Inl err \<longleftrightarrow>
     (\<exists>k. err = KeyError (NodeId k) \<and> k \<notin> set (dict_keys (class_uuid s)) \<and>
        (if node_id (fst (nodes rel)) \<in> set (dict_keys (class_uuid s))
         then k = node_id (snd (nodes rel)) else k = node_id (fst (nodes rel))))"
  by (auto simp: make_rel_def fresh_uuid_def Let_def in_dict_keys split: option.splits)

lemma make_rels_state:
  "make_rels e rels acc s = (res, s') \<Longrightarrow>
     class_uuid s' = class_uuid s \<and> logged s' = logged s \<and> randint_calls s' = randint_calls s"
proof (induction rels arbitrary: acc s)
  case Nil
  then show ?case by simp
next
  case (Cons rel rels)
  obtain x s1 where mr: "make_rel e rel s = (x, s1)" by (cases "make_rel e rel s")
  with make_rel_state [of e rel s] have s1: "s1 = s\<lparr>uuid_calls := Suc (uuid_calls s)\<rparr>" by simp
  show ?case
  proof (cases x)
    case (Inl err)
    with Cons.prems mr s1 show ?thesis by auto
  next
    case (Inr r)
    with Cons.prems mr have "make_rels e rels (dict_set acc (rel_type rel) r) s1 = (res, s')"
      by simp
    from Cons.IH [OF this] s1 show ?thesis by simp
  qed
qed

lemma make_rels_missing:
  "\<exists>rel \<in> set rels. node_id (fst (nodes rel)) \<notin> set (dict_keys (class_uuid s)) \<or>
                     node_id (snd (nodes rel)) \<notin> set (dict_keys (class_uuid s)) \<Longrightarrow>
   \<exists>k. fst (make_rels e rels acc s) = Inl (KeyError (NodeId k)) \<and>
       k \<notin> set (dict_keys (class_uuid s))"
proof (induction rels arbitrary: acc s)
  case Nil
  then show ?case by simp
next
  case (Cons rel rels)
  obtain x s1 where mr: "make_rel e rel s = (x, s1)" by (cases "make_rel e rel s")
  with make_rel_state [of e rel s] have s1: "s1 = s\<lparr>uuid_calls := Suc (uuid_calls s)\<rparr>" by simp
  show ?case
  proof (cases x)
    case (Inl err)
    with mr have "fst (make_rel e rel s) = Inl err" by simp
    then obtain k where "err = KeyError (NodeId k)" "k \<notin> set (dict_keys (class_uuid s))"
      unfolding make_rel_Inl by blast
    with Inl mr show ?thesis by auto
  next
    case (Inr r)
    with mr have "fst (make_rel e rel s) = Inr r" by simp
    then have here: "node_id (fst (nodes rel)) \<in> set (dict_keys (class_uuid s))"
      "node_id (snd (nodes rel)) \<in> set (dict_keys (class_uuid s))"
      unfolding make_rel_Inr in_dict_keys by auto
    with Cons.prems s1
    have "\<exists>rel \<in> set rels. node_id (fst (nodes rel)) \<notin> set (dict_keys (class_uuid s1)) \<or>
                     node_id (snd (nodes rel)) \<notin> set (dict_keys (class_uuid s1))"
      by auto
    from Cons.IH [OF this, of "dict_set acc (rel_type rel) r"] Inr mr s1 show ?thesis
      by simp
  qed
qed

lemma make_rels_present:
  "\<forall>rel \<in> set rels. node_id (fst (nodes rel)) \<in> set (dict_keys (class_uuid s)) \<and>
                     node_id (snd (nodes rel)) \<in> set (dict_keys (class_uuid s)) \<Longrightarrow>
   \<exists>rs. fst (make_rels e rels acc s) = Inr rs"
proof (induction rels arbitrary: acc s)
  case Nil
  then show ?case by simp
next
  case (Cons rel rels)
  obtain x s1 where mr: "make_rel e rel s = (x, s1)" by (cases "make_rel e rel s")
  with make_rel_state [of e rel s] have s1: "s1 = s\<lparr>uuid_calls := Suc (uuid_calls s)\<rparr>" by simp
  show ?case
  proof (cases x)
    case (Inl err)
    with mr have "fst (make_rel e rel s) = Inl err" by simp
    with Cons.prems show ?thesis unfolding make_rel_Inl by (auto split: if_splits)
  next
    case (Inr r)
    from Cons.prems s1
    have "\<forall>rel \<in> set rels. node_id (fst (nodes rel)) \<in> set (dict_keys (class_uuid s1)) \<and>
                     node_id (snd (nodes rel)) \<in> set (dict_keys (class_uuid s1))"
      by auto
    from Cons.IH [OF this, of "dict_set acc (rel_type rel) r"] Inr mr show ?thesis
      by simp
  qed
qed

lemma make_rels_step:
  assumes "make_rels e (rel # rels) acc s = (Inr rs, s')"
  obtains r where "fst (make_rel e rel s) = Inr r"
    and "make_rels e rels (dict_set acc (rel_type rel) r) (s\<lparr>uuid_calls := Suc (uuid_calls s)\<rparr>)
           = (Inr rs, s')"
proof -
  obtain x s1 where mr: "make_rel e rel s = (x, s1)" by (cases "make_rel e rel s")
  with make_rel_state [of e rel s] have s1: "s1 = s\<lparr>uuid_calls := Suc (uuid_calls s)\<rparr>" by simp
  show thesis
  proof (cases x)
    case (Inl err)
    with assms mr show ?thesis by simp
  next
    case (Inr r)
    with assms mr s1 that [of r] show ?thesis by simp
  qed
qed

lemma make_rels_keys:
  "make_rels e rels acc s = (Inr rs, s') \<Longrightarrow>
     set (dict_keys rs) = set (dict_keys acc) \<union> rel_type ` set rels"
proof (induction rels arbitrary: acc s)
  case Nil
  then show ?case by simp
next
  case (Cons rel rels)
  from Cons.prems obtain r where
    "make_rels e rels (dict_set acc (rel_type rel) r) (s\<lparr>uuid_calls := Suc (uuid_calls s)\<rparr>)
       = (Inr rs, s')"
    by (rule make_rels_step)
  from Cons.IH [OF this] show ?case by (simp add: set_dict_keys_set)
qed

lemma make_rels_distinct:
  "make_rels e rels acc s = (Inr rs, s') \<Longrightarrow> distinct (dict_keys acc) \<Longrightarrow>
     distinct (dict_keys rs)"
proof (induction rels arbitrary: acc s)
  case Nil
  then show ?case by simp
next
  case (Cons rel rels)
  from Cons.prems(1) obtain r where
    "make_rels e rels (dict_set acc (rel_type rel) r) (s\<lparr>uuid_calls := Suc (uuid_calls s)\<rparr>)
       = (Inr rs, s')"
    by (rule make_rels_step)
  from Cons.IH [OF this] Cons.prems(2) show ?case by (simp add: distinct_dict_set)
qed

lemma make_rels_endpoints:
  "make_rels e rels acc s = (Inr rs, s') \<Longrightarrow>
     \<forall>r \<in> set (dict_values acc). start r \<in> set (dict_values (class_uuid s)) \<and>
                                    endId r \<in> set (dict_values (class_uuid s)) \<Longrightarrow>
     \<forall>r \<in> set (dict_values rs). start r \<in> set (dict_values (class_uuid s)) \<and>
                                   endId r \<in> set (dict_values (class_uuid s))"
proof (induction rels arbitrary: acc s)
  case Nil
  then show ?case by simp
next
  case (Cons rel rels)
  let ?s1 = "s\<lparr>uuid_calls := Suc (uuid_calls s)\<rparr>"
  from Cons.prems(1) obtain r where r: "fst (make_rel e rel s) = Inr r"
    and rest: "make_rels e rels (dict_set acc (rel_type rel) r) ?s1 = (Inr rs, s')"
    by (rule make_rels_step)
  from r obtain start_id end_id where
    "dict_get (class_uuid s) (node_id (fst (nodes rel))) = Some start_id"
    "dict_get (class_uuid s) (node_id (snd (nodes rel))) = Some end_id"
    "start r = start_id" "endId r = end_id"
    unfolding make_rel_Inr by auto
  then have ends: "start r \<in> set (dict_values (class_uuid s))"
    "endId r \<in> set (dict_values (class_uuid s))"
    by (auto dest: dict_get_Some_value)
  have "\<forall>x \<in> set (dict_values (dict_set acc (rel_type rel) r)).
          start x \<in> set (dict_values (class_uuid ?s1)) \<and>
          endId x \<in> set (dict_values (class_uuid ?s1))"
  proof
    fix x assume "x \<in> set (dict_values (dict_set acc (rel_type rel) r))"
    with dict_set_values [of acc "rel_type rel" r]
    have "x = r \<or> x \<in> set (dict_values acc)" by auto
    with Cons.prems(2) ends
    have "start x \<in> set (dict_values (class_uuid s)) \<and> endId x \<in> set (dict_values (class_uuid s))"
      by blast
    then show "start x \<in> set (dict_values (class_uuid ?s1)) \<and>
               endId x \<in> set (dict_values (class_uuid ?s1))"
      by simp
  qed
  from Cons.IH [OF rest this] show ?case by simp
qed

lemma fst_to_hume_type:
  "fst (to_hume_type nd s) =
     (case propertyTypes nd of
        [] \<Rightarrow> Inl IndexError
      | t # _ \<Rightarrow> Inr (case dict_get TYPES_MAPPING t of None \<Rightarrow> ''STRING'' | Some v \<Rightarrow> v))"
  by (simp add: to_hume_type_def Let_def split: list.splits)

lemma to_hume_type_logged:
  "set (logged s) \<subseteq> set (logged (snd (to_hume_type nd s)))"
  by (auto simp: to_hume_type_def Let_def log_call_def split: list.splits)

lemma setdefault_append_get:
  "dict_get (setdefault_append am lbl a) l =
     (if l = lbl then Some ((case dict_get am lbl of None \<Rightarrow> [] | Some as \<Rightarrow> as) @ [a])
      else dict_get am l)"
  by (simp add: setdefault_append_def dict_get_set split: option.splits)

lemma setdefault_append_keys:
  "set (dict_keys (setdefault_append am lbl a)) = insert lbl (set (dict_keys am))"
  by (simp add: setdefault_append_def set_dict_keys_set split: option.splits)

lemma setdefault_append_distinct:
  "distinct (dict_keys am) \<Longrightarrow> distinct (dict_keys (setdefault_append am lbl a))"
  by (simp add: setdefault_append_def distinct_dict_set split: option.splits)

lemma gather_attributes_single:
  "nodeLabels nd = [lbl] \<Longrightarrow>
   gather_attributes (nd # rest) am s =
     (case to_hume_type nd s of
        (Inl err, s1) \<Rightarrow> (Inl err, s1)
      | (Inr humeType, s1) \<Rightarrow>
          gather_attributes rest
            (setdefault_append am lbl \<lparr>attr_label = propertyName nd, attr_type = humeType\<rparr>) s1)"
  by simp

lemma gather_attributes_skip:
  "length (nodeLabels nd) \<noteq> 1 \<Longrightarrow>
   gather_attributes (nd # rest) am s =
     gather_attributes rest am (log_call (Warning_multiple_labels (nodeType nd) (nodeLabels nd)) s)"
  by (cases "nodeLabels nd") (auto split: list.splits)

declare gather_attributes.simps(2) [simp del]

lemma length_one_iff: "length xs = Suc 0 \<longleftrightarrow> (\<exists>x. xs = [x])"
  by (cases xs) auto

lemma fst_gather_attributes:
  "fst (gather_attributes nds am s) = fst (gather_attributes nds am s')"
proof (induction nds arbitrary: am s s')
  case Nil
  then show ?case by simp
next
  case (Cons nd nds)
  show ?case
  proof (cases "length (nodeLabels nd) = 1")
    case False
    then show ?thesis using Cons.IH by (simp add: gather_attributes_skip)
  next
    case True
    then obtain lbl where l: "nodeLabels nd = [lbl]" by (auto simp: length_one_iff)
    obtain x s1 where t: "to_hume_type nd s = (x, s1)" by (cases "to_hume_type nd s")
    obtain x' s1' where t': "to_hume_type nd s' = (x', s1')" by (cases "to_hume_type nd s'")
    from t t' fst_to_hume_type [of nd s] fst_to_hume_type [of nd s'] have "x' = x" by simp
    with t t' show ?thesis using Cons.IH
      by (cases x) (simp_all add: gather_attributes_single [OF l])
  qed
qed

lemma gather_attributes_step:
  assumes "gather_attributes (nd # rest) am s = (Inr am', s')"
  obtains (single) lbl t ts s1 where "nodeLabels nd = [lbl]" "propertyTypes nd = t # ts"
      "set (logged s) \<subseteq> set (logged s1)"
      "gather_attributes rest
         (setdefault_append am lbl
            \<lparr>attr_label = propertyName nd,
             attr_type = (case dict_get TYPES_MAPPING t of None \<Rightarrow> ''STRING'' | Some v \<Rightarrow> v)\<rparr>) s1
       = (Inr am', s')"
  | (skip) "length (nodeLabels nd) \<noteq> 1"
      "gather_attributes rest am
         (log_call (Warning_multiple_labels (nodeType nd) (nodeLabels nd)) s) = (Inr am', s')"
proof (cases "length (nodeLabels nd) = 1")
  case False
  with assms skip show ?thesis by (simp add: gather_attributes_skip)
next
  case True
  then obtain lbl where l: "nodeLabels nd = [lbl]" by (auto simp: length_one_iff)
  obtain x s1 where t: "to_hume_type nd s = (x, s1)" by (cases "to_hume_type nd s")
  from t to_hume_type_logged [of s nd] have lg: "set (logged s) \<subseteq> set (logged s1)" by simp
  show ?thesis
  proof (cases x)
    case (Inl err)
    with assms t show ?thesis by (simp add: gather_attributes_single [OF l])
  next
    case (Inr humeType)
    with t fst_to_hume_type [of nd s] obtain ty ts where
      ty: "propertyTypes nd = ty # ts"
      "humeType = (case dict_get TYPES_MAPPING ty of None \<Rightarrow> ''STRING'' | Some v \<Rightarrow> v)"
      by (cases "propertyTypes nd") auto
    from assms t Inr have
      "gather_attributes rest
         (setdefault_append am lbl \<lparr>attr_label = propertyName nd, attr_type = humeType\<rparr>) s1
       = (Inr am', s')"
      by (simp add: gather_attributes_single [OF l])
    with single [OF l ty(1) lg] ty(2) show ?thesis by simp
  qed
qed

lemma gather_attributes_keys:
  "gather_attributes nds am s = (Inr am', s') \<Longrightarrow>
     set (dict_keys am') = set (dict_keys am) \<union> {l. \<exists>p \<in> set nds. nodeLabels p = [l]}"
proof (induction nds arbitrary: am s)
  case Nil
  then show ?case by simp
next
  case (Cons nd nds)
  from Cons.prems show ?case
  proof (cases rule: gather_attributes_step)
    case (single lbl t ts s1)
    from Cons.IH [OF single(4)] single(1) show ?thesis
      by (auto simp: setdefault_append_keys)
  next
    case skip
    from Cons.IH [OF skip(2)] skip(1) show ?thesis by auto
  qed
qed

lemma gather_attributes_distinct:
  "gather_attributes nds am s = (Inr am', s') \<Longrightarrow> distinct (dict_keys am) \<Longrightarrow>
     distinct (dict_keys am')"
proof (induction nds arbitrary: am s)
  case Nil
  then show ?case by simp
next
  case (Cons nd nds)
  from Cons.prems(1) show ?case
  proof (cases rule: gather_attributes_step)
    case (single lbl t ts s1)
    from Cons.IH [OF single(4)] Cons.prems(2) show ?thesis
      by (simp add: setdefault_append_distinct)
  next
    case skip
    from Cons.IH [OF skip(2)] Cons.prems(2) show ?thesis by simp
  qed
qed

lemma gather_attributes_logged:
  "gather_attributes nds am s = (Inr am', s') \<Longrightarrow>
     set (logged s) \<subseteq> set (logged s') \<and>
     (\<forall>p \<in> set nds. length (nodeLabels p) \<noteq> 1 \<longrightarrow>
        Warning_multiple_labels (nodeType p) (nodeLabels p) \<in> set (logged s'))"
proof (induction nds arbitrary: am s)
  case Nil
  then show ?case by simp
next
  case (Cons nd nds)
  from Cons.prems show ?case
  proof (cases rule: gather_attributes_step)
    case (single lbl t ts s1)
    from Cons.IH [OF single(4)] single(1,3) show ?thesis by auto
  next
    case skip
    let ?w = "Warning_multiple_labels (nodeType nd) (nodeLabels nd)"
    have "set (logged (log_call ?w s)) = insert ?w (set (logged s))"
      by (simp add: log_call_def)
    with Cons.IH [OF skip(2)] show ?thesis by auto
  qed
qed

lemma gather_attributes_get:
  "gather_attributes nds am s = (Inr am', s') \<Longrightarrow>
     \<exists>new. list_all2
              (\<lambda>a p. attr_label a = propertyName p \<and>
                     (\<exists>t ts. propertyTypes p = t # ts \<and>
                        attr_type a = (case dict_get TYPES_MAPPING t of None \<Rightarrow> ''STRING'' | Some v \<Rightarrow> v)))
              new [p \<leftarrow> nds. nodeLabels p = [l]] \<and>
           dict_get am' l =
             (if new = [] then dict_get am l
              else Some ((case dict_get am l of None \<Rightarrow> [] | Some as \<Rightarrow> as) @ new))"
proof (induction nds arbitrary: am s)
  case Nil
  then show ?case by simp
next
  case (Cons nd nds)
  let ?R = "\<lambda>a p. attr_label a = propertyName p \<and>
                     (\<exists>t ts. propertyTypes p = t # ts \<and>
                        attr_type a = (case dict_get TYPES_MAPPING t of None \<Rightarrow> ''STRING'' | Some v \<Rightarrow> v))"
  from Cons.prems show ?case
  proof (cases rule: gather_attributes_step)
    case (single lbl t ts s1)
    let ?a = "\<lparr>attr_label = propertyName nd,
               attr_type = (case dict_get TYPES_MAPPING t of None \<Rightarrow> ''STRING'' | Some v \<Rightarrow> v)\<rparr>"
    let ?am1 = "setdefault_append am lbl ?a"
    from Cons.IH [OF single(4)] obtain new where
      new: "list_all2 ?R new [p \<leftarrow> nds. nodeLabels p = [l]]"
      and get: "dict_get am' l =
             (if new = [] then dict_get ?am1 l
              else Some ((case dict_get ?am1 l of None \<Rightarrow> [] | Some as \<Rightarrow> as) @ new))"
      by blast
    show ?thesis
    proof (cases "l = lbl")
      case True
      have Ra: "?R ?a nd" using single(2) by simp
      with new True single(1) have "list_all2 ?R (?a # new) [p \<leftarrow> nd # nds. nodeLabels p = [l]]"
        by simp
      moreover from get True have "dict_get am' l =
          Some ((case dict_get am l of None \<Rightarrow> [] | Some as \<Rightarrow> as) @ (?a # new))"
        by (simp add: setdefault_append_get)
      ultimately show ?thesis by (intro exI [of _ "?a # new"]) simp
    next
      case False
      with new single(1) have "list_all2 ?R new [p \<leftarrow> nd # nds. nodeLabels p = [l]]"
        by simp
      moreover from get False have "dict_get am' l =
             (if new = [] then dict_get am l
              else Some ((case dict_get am l of None \<Rightarrow> [] | Some as \<Rightarrow> as) @ new))"
        by (simp add: setdefault_append_get)
      ultimately show ?thesis by blast
    qed
  next
    case skip
    from skip(1) have "nodeLabels nd \<noteq> [l]" by auto
    with Cons.IH [OF skip(2)] show ?thesis by simp
  qed
qed

lemma gather_attributes_error:
  "fst (gather_attributes nds am s) = Inl err \<Longrightarrow>
     err = IndexError \<and> (\<exists>p \<in> set nds. length (nodeLabels p) = 1 \<and> propertyTypes p = [])"
proof (induction nds arbitrary: am s)
  case Nil
  then show ?case by simp
next
  case (Cons nd nds)
  show ?case
  proof (cases "length (nodeLabels nd) = 1")
    case False
    with Cons.prems have "fst (gather_attributes nds am
         (log_call (Warning_multiple_labels (nodeType nd) (nodeLabels nd)) s)) = Inl err"
      by (simp add: gather_attributes_skip)
    from Cons.IH [OF this] show ?thesis by auto
  next
    case True
    then obtain lbl where l: "nodeLabels nd = [lbl]" by (auto simp: length_one_iff)
    obtain x s1 where t: "to_hume_type nd s = (x, s1)" by (cases "to_hume_type nd s")
    show ?thesis
    proof (cases x)
      case (Inl err')
      with t fst_to_hume_type [of nd s] have "propertyTypes nd = []" "err' = IndexError"
        by (auto split: list.splits)
      with Cons.prems t Inl True show ?thesis
        by (simp add: gather_attributes_single [OF l])
    next
      case (Inr humeType)
      with Cons.prems t have "fst (gather_attributes nds
         (setdefault_append am lbl \<lparr>attr_label = propertyName nd, attr_type = humeType\<rparr>) s1) = Inl err"
        by (simp add: gather_attributes_single [OF l])
      from Cons.IH [OF this] show ?thesis by auto
    qed
  qed
qed

lemma dict_keys_simps [simp]: "dict_keys [] = []" "dict_keys ((k, v) # d) = k # dict_keys d"
  by (simp_all add: dict_keys_def)

lemma dict_get_simps [simp]:
  "dict_get [] k = None"
  "dict_get ((k', v) # d) k = (if k = k' then Some v else dict_get d k)"
  by (simp_all add: dict_get_def)

lemma dict_keys_set_present:
  "dict_get d k = Some v \<Longrightarrow> dict_keys (dict_set d k v') = dict_keys d"
  by (simp add: dict_keys_set in_dict_keys)

lemma attach_attributes_keys:
  "attach_attributes am cs = Inr cs' \<Longrightarrow> dict_keys cs' = dict_keys cs"
proof (induction am arbitrary: cs)
  case Nil
  then show ?case by simp
next
  case (Cons kv am)
  obtain k as where kv: "kv = (k, as)" by (cases kv)
  show ?case
  proof (cases "dict_get cs k")
    case None
    with Cons.prems kv show ?thesis by simp
  next
    case (Some c)
    with Cons.prems kv
    have "attach_attributes am (dict_set cs k (c\<lparr>attributes := Some as\<rparr>)) = Inr cs'" by simp
    from Cons.IH [OF this] Some show ?thesis by (simp add: dict_keys_set_present)
  qed
qed

lemma attach_attributes_error:
  "attach_attributes am cs = Inl err \<Longrightarrow>
     \<exists>k. err = KeyError (Label k) \<and> k \<in> set (dict_keys am) \<and> k \<notin> set (dict_keys cs)"
proof (induction am arbitrary: cs)
  case Nil
  then show ?case by simp
next
  case (Cons kv am)
  obtain k as where kv: "kv = (k, as)" by (cases kv)
  show ?case
  proof (cases "dict_get cs k")
    case None
    with Cons.prems kv show ?thesis by (auto simp: dict_get_None)
  next
    case (Some c)
    with Cons.prems kv
    have "attach_attributes am (dict_set cs k (c\<lparr>attributes := Some as\<rparr>)) = Inl err" by simp
    from Cons.IH [OF this] obtain k' where "err = KeyError (Label k')" "k' \<in> set (dict_keys am)"
      "k' \<notin> set (dict_keys (dict_set cs k (c\<lparr>attributes := Some as\<rparr>)))" by blast
    with kv show ?thesis by (auto simp: set_dict_keys_set)
  qed
qed

lemma attach_attributes_unknown:
  "\<not> set (dict_keys am) \<subseteq> set (dict_keys cs) \<Longrightarrow> \<exists>err. attach_attributes am cs = Inl err"
proof (induction am arbitrary: cs)
  case Nil
  then show ?case by simp
next
  case (Cons kv am)
  obtain k as where kv: "kv = (k, as)" by (cases kv)
  show ?case
  proof (cases "dict_get cs k")
    case None
    with kv show ?thesis by simp
  next
    case (Some c)
    then have "k \<in> set (dict_keys cs)" by (auto simp: in_dict_keys)
    with Cons.prems kv
    have "\<not> set (dict_keys am) \<subseteq> set (dict_keys (dict_set cs k (c\<lparr>attributes := Some as\<rparr>)))"
      by (auto simp: set_dict_keys_set)
    from Cons.IH [OF this] Some kv show ?thesis by simp
  qed
qed

lemma attach_attributes_get:
  "attach_attributes am cs = Inr cs' \<Longrightarrow> distinct (dict_keys am) \<Longrightarrow>
     dict_get cs' l =
       (case dict_get am l of
          None \<Rightarrow> dict_get cs l
        | Some as \<Rightarrow> map_option (\<lambda>c. c\<lparr>attributes := Some as\<rparr>) (dict_get cs l))"
proof (induction am arbitrary: cs)
  case Nil
  then show ?case by simp
next
  case (Cons kv am)
  obtain k as where kv: "kv = (k, as)" by (cases kv)
  from Cons.prems(2) kv have notin: "k \<notin> set (dict_keys am)" and d: "distinct (dict_keys am)"
    by auto
  show ?case
  proof (cases "dict_get cs k")
    case None
    with Cons.prems kv show ?thesis by simp
  next
    case (Some c)
    let ?cs1 = "dict_set cs k (c\<lparr>attributes := Some as\<rparr>)"
    from Some Cons.prems kv have "attach_attributes am ?cs1 = Inr cs'" by simp
    note ih = Cons.IH [OF this d]
    show ?thesis
    proof (cases "l = k")
      case True
      with notin have "dict_get am l = None" by (simp add: dict_get_None)
      with ih True Some kv show ?thesis by (simp add: dict_get_set)
    next
      case False
      with ih kv show ?thesis by (simp add: dict_get_set split: option.splits)
    qed
  qed
qed

lemma dict_set_frame:
  "dict_get d k = Some c \<Longrightarrow> g c' = g c \<Longrightarrow>
     map (\<lambda>kv. (fst kv, g (snd kv))) (dict_set d k c') = map (\<lambda>kv. (fst kv, g (snd kv))) d"
  by (induction d k c' rule: dict_set.induct) (auto split: if_splits)

lemma attach_attributes_frame:
  "attach_attributes am cs = Inr cs' \<Longrightarrow>
     map (\<lambda>kv. (fst kv, (snd kv)\<lparr>attributes := None\<rparr>)) cs' =
     map (\<lambda>kv. (fst kv, (snd kv)\<lparr>attributes := None\<rparr>)) cs"
proof (induction am arbitrary: cs)
  case Nil
  then show ?case by simp
next
  case (Cons kv am)
  obtain k as where kv: "kv = (k, as)" by (cases kv)
  show ?case
  proof (cases "dict_get cs k")
    case None
    with Cons.prems kv show ?thesis by simp
  next
    case (Some c)
    with Cons.prems kv
    have "attach_attributes am (dict_set cs k (c\<lparr>attributes := Some as\<rparr>)) = Inr cs'" by simp
    from Cons.IH [OF this]
      dict_set_frame [OF Some, of "\<lambda>c. c\<lparr>attributes := None\<rparr>" "c\<lparr>attributes := Some as\<rparr>"]
    show ?thesis by simp
  qed
qed

lemma populate_schema_Inr:
  assumes "populate_schema e nds rels s = (Inr (cs, rs), s')"
  obtains s1 where "make_classes e nds [] s = (cs, s1)" "make_rels e rels [] s1 = (Inr rs, s')"
proof -
  obtain cs0 s1 where mc: "make_classes e nds [] s = (cs0, s1)"
    by (cases "make_classes e nds [] s")
  obtain x s2 where mr: "make_rels e rels [] s1 = (x, s2)" by (cases "make_rels e rels [] s1")
  from assms mc mr have "x = Inr rs \<and> cs0 = cs \<and> s2 = s'"
    by (cases x) (simp_all add: populate_schema_def)
  with mc mr that show thesis by simp
qed

lemma collect_attributes_Inr:
  assumes "collect_attributes cs props s = (Inr cs', s')"
  obtains am where "gather_attributes props [] s = (Inr am, s')" "attach_attributes am cs = Inr cs'"
proof -
  obtain x s1 where g: "gather_attributes props [] s = (x, s1)"
    by (cases "gather_attributes props [] s")
  show thesis
  proof (cases x)
    case (Inl err)
    with assms g show ?thesis by (simp add: collect_attributes_def)
  next
    case (Inr am)
    with assms g that [of am] show ?thesis by (simp add: collect_attributes_def)
  qed
qed

lemma converter_init_Inr:
  assumes "fst (converter_init e nds rels props) = Inr doc"
  obtains cs rs s1 cs' s3 where
    "populate_schema e nds rels initial_state = (Inr (cs, rs), s1)"
    "collect_attributes cs props (log_call (Info_got (length cs) (length rs)) s1) = (Inr cs', s3)"
    "doc = \<lparr>classes = dict_values cs', relationships = dict_values rs\<rparr>"
proof -
  obtain x s1 where p: "populate_schema e nds rels initial_state = (x, s1)"
    by (cases "populate_schema e nds rels initial_state")
  show thesis
  proof (cases x)
    case (Inl err)
    with assms p show ?thesis by (simp add: converter_init_def)
  next
    case (Inr crs)
    obtain cs rs where crs: "crs = (cs, rs)" by (cases crs)
    obtain y s3 where c:
      "collect_attributes cs props (log_call (Info_got (length cs) (length rs)) s1) = (y, s3)"
      by (cases "collect_attributes cs props (log_call (Info_got (length cs) (length rs)) s1)")
    show ?thesis
    proof (cases y)
      case (Inl err)
      with assms p Inr crs c show ?thesis by (simp add: converter_init_def)
    next
      case (Inr cs')
      with assms p \<open>x = Inr crs\<close> crs c that [of cs rs s1 cs' s3] show ?thesis
        by (simp add: converter_init_def)
    qed
  qed
qed

lemma mapped_type_in_enumeration:
  "(case dict_get TYPES_MAPPING t of None \<Rightarrow> ''STRING'' | Some v \<Rightarrow> v)
     \<in> {''STRING'', ''NUMBER'', ''DOUBLE'', ''DATE'', ''BOOLEAN''}"
  by (simp add: TYPES_MAPPING_def)

lemma collect_attributes_get:
  assumes "collect_attributes cs props s = (Inr cs', s')" and "dict_get cs' l = Some c'"
  obtains c new where "dict_get cs l = Some c"
    "list_all2
       (\<lambda>a p. attr_label a = propertyName p \<and>
          (\<exists>t ts. propertyTypes p = t # ts \<and>
             attr_type a = (case dict_get TYPES_MAPPING t of None \<Rightarrow> ''STRING'' | Some v \<Rightarrow> v)))
       new [p \<leftarrow> props. nodeLabels p = [l]]"
    "c' = (if new = [] then c else c\<lparr>attributes := Some new\<rparr>)"
proof -
  from assms(1) obtain am where g: "gather_attributes props [] s = (Inr am, s')"
    and a: "attach_attributes am cs = Inr cs'"
    by (rule collect_attributes_Inr)
  from gather_attributes_distinct [OF g] have d: "distinct (dict_keys am)" by simp
  from gather_attributes_get [OF g, of l] obtain new where
    new: "list_all2
       (\<lambda>a p. attr_label a = propertyName p \<and>
          (\<exists>t ts. propertyTypes p = t # ts \<and>
             attr_type a = (case dict_get TYPES_MAPPING t of None \<Rightarrow> ''STRING'' | Some v \<Rightarrow> v)))
       new [p \<leftarrow> props. nodeLabels p = [l]]"
    and am: "dict_get am l = (if new = [] then None else Some new)"
    by auto
  from attach_attributes_get [OF a d, of l] assms(2) am
  have eq: "Some c' = (if new = [] then dict_get cs l
                       else map_option (\<lambda>c. c\<lparr>attributes := Some new\<rparr>) (dict_get cs l))"
    by (simp split: if_splits)
  show thesis
  proof (cases "dict_get cs l")
    case None
    with eq show ?thesis by (simp split: if_splits)
  next
    case (Some c)
    with eq have "c' = (if new = [] then c else c\<lparr>attributes := Some new\<rparr>)"
      by (simp split: if_splits)
    with Some new that [of c new] show ?thesis by blast
  qed
qed

lemma make_classes_labels:
  "make_classes e nds acc s = (cs, s') \<Longrightarrow> \<forall>kv \<in> set acc. label (snd kv) = fst kv \<Longrightarrow>
     \<forall>kv \<in> set cs. label (snd kv) = fst kv"
proof (induction nds arbitrary: acc s)
  case Nil
  then show ?case by simp
next
  case (Cons nd nds)
  obtain c s1 where mc: "make_class e nd s = (c, s1)" by (cases "make_class e nd s")
  then have "label c = name nd" by (auto simp: make_class_eq)
  with Cons.prems(2) set_dict_set_subset [of acc "name nd" c]
  have "\<forall>kv \<in> set (dict_set acc (name nd) c). label (snd kv) = fst kv" by auto
  moreover from Cons.prems(1) mc have "make_classes e nds (dict_set acc (name nd) c) s1 = (cs, s')"
    by simp
  ultimately show ?case using Cons.IH by blast
qed

lemma distinct_keys_get: "distinct (dict_keys d) \<Longrightarrow> (k, v) \<in> set d \<Longrightarrow> dict_get d k = Some v"
  by (simp add: dict_keys_def dict_get_def)

lemma dict_values_simps [simp]:
  "dict_values [] = []" "dict_values ((k, v) # d) = v # dict_values d"
  by (simp_all add: dict_values_def)

lemma in_dict_values: "v \<in> set (dict_values d) \<Longrightarrow> \<exists>k. (k, v) \<in> set d"
  by (auto simp: dict_values_def)

lemma attach_attributes_uuids:
  assumes "attach_attributes am cs = Inr cs'"
  shows "map uuid (dict_values cs') = map uuid (dict_values cs)"
proof -
  from attach_attributes_frame [OF assms]
  have "map (\<lambda>p. uuid (snd p)) (map (\<lambda>kv. (fst kv, (snd kv)\<lparr>attributes := None\<rparr>)) cs') =
        map (\<lambda>p. uuid (snd p)) (map (\<lambda>kv. (fst kv, (snd kv)\<lparr>attributes := None\<rparr>)) cs)"
    by simp
  then show ?thesis by (simp add: dict_values_def comp_def)
qed

lemma document_class:
  assumes "fst (converter_init e nds rels props) = Inr doc" and "c \<in> set (classes doc)"
  obtains c0 new where "attributes c0 = None" "label c0 = label c"
    "list_all2
       (\<lambda>a p. attr_label a = propertyName p \<and>
          (\<exists>t ts. propertyTypes p = t # ts \<and>
             attr_type a = (case dict_get TYPES_MAPPING t of None \<Rightarrow> ''STRING'' | Some v \<Rightarrow> v)))
       new [p \<leftarrow> props. nodeLabels p = [label c]]"
    "c = (if new = [] then c0 else c0\<lparr>attributes := Some new\<rparr>)"
proof -
  from assms(1) obtain cs rs s1 cs' s3 where
    p: "populate_schema e nds rels initial_state = (Inr (cs, rs), s1)"
    and ca: "collect_attributes cs props (log_call (Info_got (length cs) (length rs)) s1) = (Inr cs', s3)"
    and doc: "doc = \<lparr>classes = dict_values cs', relationships = dict_values rs\<rparr>"
    by (rule converter_init_Inr)
  from p obtain s0 where mc: "make_classes e nds [] initial_state = (cs, s0)"
    by (rule populate_schema_Inr)
  from ca obtain am where at: "attach_attributes am cs = Inr cs'"
    by (rule collect_attributes_Inr)
  from make_classes_distinct [OF mc] have "distinct (dict_keys cs)" by simp
  with attach_attributes_keys [OF at] have d: "distinct (dict_keys cs')" by simp
  from assms(2) doc obtain k where k: "(k, c) \<in> set cs'" by (auto dest: in_dict_values)
  with d have get: "dict_get cs' k = Some c" by (rule distinct_keys_get)
  from ca get obtain c0 new where c0: "dict_get cs k = Some c0"
    and new: "list_all2
       (\<lambda>a p. attr_label a = propertyName p \<and>
          (\<exists>t ts. propertyTypes p = t # ts \<and>
             attr_type a = (case dict_get TYPES_MAPPING t of None \<Rightarrow> ''STRING'' | Some v \<Rightarrow> v)))
       new [p \<leftarrow> props. nodeLabels p = [k]]"
    and c: "c = (if new = [] then c0 else c0\<lparr>attributes := Some new\<rparr>)"
    by (rule collect_attributes_get)
  from c0 have in_cs: "(k, c0) \<in> set cs" by (rule dict_get_Some_in)
  with make_classes_labels [OF mc] have l0: "label c0 = k" by auto
  with c have lc: "label c = k" by (simp split: if_splits)
  from in_cs have "c0 \<in> set (dict_values cs)" by (auto simp: dict_values_def intro: rev_image_eqI)
  with make_classes_no_attributes [OF mc] have "attributes c0 = None" by simp
  with l0 lc new c that [of c0 new] show thesis by simp
qed

lemmas run_defs =
  converter_init_def populate_schema_def make_class_def make_rel_def fresh_uuid_def
  random_canvas_position_def randint_def initial_state_def log_call_def
  collect_attributes_def to_hume_type_def TYPES_MAPPING_def setdefault_append_def
  main_output_def gather_attributes.simps(2) Let_def

lemma fst_collect_attributes:
  "fst (collect_attributes cs props s) =
     (case fst (gather_attributes props [] s) of
        Inl err \<Rightarrow> Inl err
      | Inr am \<Rightarrow> attach_attributes am cs)"
  by (cases "gather_attributes props [] s")
     (auto simp: collect_attributes_def split: sum.splits)

lemma fst_gather_attributes_skip:
  "length (nodeLabels p) \<noteq> 1 \<Longrightarrow>
     fst (gather_attributes (xs @ p # ys) am s) = fst (gather_attributes (xs @ ys) am s)"
proof (induction xs arbitrary: am s)
  case Nil
  then show ?case using fst_gather_attributes by (simp add: gather_attributes_skip)
next
  case (Cons x xs)
  show ?case
  proof (cases "length (nodeLabels x) = 1")
    case False
    then show ?thesis using Cons.IH [OF Cons.prems] by (simp add: gather_attributes_skip)
  next
    case True
    then obtain lbl where l: "nodeLabels x = [lbl]" by (auto simp: length_one_iff)
    obtain r s1 where t: "to_hume_type x s = (r, s1)" by (cases "to_hume_type x s")
    show ?thesis using t Cons.IH [OF Cons.prems]
      by (cases r) (simp_all add: gather_attributes_single [OF l])
  qed
qed

lemma gather_attributes_succeeds:
  assumes "\<forall>p \<in> set props. length (nodeLabels p) = 1 \<longrightarrow> propertyTypes p \<noteq> []"
  obtains am s' where "gather_attributes props am0 s = (Inr am, s')"
proof -
  obtain r s' where g: "gather_attributes props am0 s = (r, s')"
    by (cases "gather_attributes props am0 s")
  show thesis
  proof (cases r)
    case (Inl err)
    with g have "fst (gather_attributes props am0 s) = Inl err" by simp
    from gather_attributes_error [OF this] assms show ?thesis by blast
  next
    case (Inr am)
    with g that show ?thesis by simp
  qed
qed

lemma collect_attributes_succeeds:
  assumes types: "\<forall>p \<in> set props. length (nodeLabels p) = 1 \<longrightarrow> propertyTypes p \<noteq> []"
    and known: "\<forall>p \<in> set props. \<forall>l. nodeLabels p = [l] \<longrightarrow> l \<in> set (dict_keys cs)"
  shows "\<exists>cs' s'. collect_attributes cs props s = (Inr cs', s')"
proof -
  from types obtain am s' where g: "gather_attributes props [] s = (Inr am, s')"
    by (rule gather_attributes_succeeds)
  from gather_attributes_keys [OF g] known have sub: "set (dict_keys am) \<subseteq> set (dict_keys cs)"
    by auto
  obtain r where a: "attach_attributes am cs = r" by simp
  show ?thesis
  proof (cases r)
    case (Inl err)
    with a attach_attributes_error [of am cs err] sub show ?thesis by blast
  next
    case (Inr cs')
    with a g show ?thesis by (simp add: collect_attributes_def)
  qed
qed

lemma converter_init_cases:
  obtains (populate_fails) err where
      "fst (populate_schema e nds rels initial_state) = Inl err"
      "fst (converter_init e nds rels props) = Inl err"
  | (populated) cs rs s1 where
      "populate_schema e nds rels initial_state = (Inr (cs, rs), s1)"
      "fst (converter_init e nds rels props) =
         (case fst (collect_attributes cs props (log_call (Info_got (length cs) (length rs)) s1)) of
            Inl err \<Rightarrow> Inl err
          | Inr cs' \<Rightarrow> Inr \<lparr>classes = dict_values cs', relationships = dict_values rs\<rparr>)"
proof -
  obtain x s1 where p: "populate_schema e nds rels initial_state = (x, s1)"
    by (cases "populate_schema e nds rels initial_state")
  show thesis
  proof (cases x)
    case (Inl err)
    with p populate_fails [of err] show ?thesis by (simp add: converter_init_def)
  next
    case (Inr crs)
    obtain cs rs where crs: "crs = (cs, rs)" by (cases crs)
    obtain y s3 where c:
      "collect_attributes cs props (log_call (Info_got (length cs) (length rs)) s1) = (y, s3)"
      by (cases "collect_attributes cs props (log_call (Info_got (length cs) (length rs)) s1)")
    from p Inr crs c have
      "fst (converter_init e nds rels props) =
         (case fst (collect_attributes cs props (log_call (Info_got (length cs) (length rs)) s1)) of
            Inl err \<Rightarrow> Inl err
          | Inr cs' \<Rightarrow> Inr \<lparr>classes = dict_values cs', relationships = dict_values rs\<rparr>)"
      by (cases y) (simp_all add: converter_init_def Let_def)
    with p Inr crs populated [of cs rs s1] show ?thesis by simp
  qed
qed

lemma collect_attributes_unknown_label:
  assumes "q \<in> set props" "nodeLabels q = [l]" "l \<notin> set (dict_keys cs)"
  obtains err where "fst (collect_attributes cs props s) = Inl err"
    "(\<forall>p \<in> set props. length (nodeLabels p) = 1 \<longrightarrow> propertyTypes p \<noteq> []) \<Longrightarrow>
       \<exists>k. err = KeyError (Label k) \<and> k \<notin> set (dict_keys cs)"
proof -
  obtain r s' where g: "gather_attributes props [] s = (r, s')"
    by (cases "gather_attributes props [] s")
  show thesis
  proof (cases r)
    case (Inl err)
    with g have f: "fst (gather_attributes props [] s) = Inl err" by simp
    from gather_attributes_error [OF f]
    have "\<not> (\<forall>p \<in> set props. length (nodeLabels p) = 1 \<longrightarrow> propertyTypes p \<noteq> [])" by blast
    moreover from f have "fst (collect_attributes cs props s) = Inl err"
      by (simp add: fst_collect_attributes)
    ultimately show ?thesis using that [of err] by blast
  next
    case (Inr am)
    with g have g': "gather_attributes props [] s = (Inr am, s')" by simp
    from gather_attributes_keys [OF g'] assms have "\<not> set (dict_keys am) \<subseteq> set (dict_keys cs)"
      by auto
    then obtain err where a: "attach_attributes am cs = Inl err"
      using attach_attributes_unknown by blast
    from attach_attributes_error [OF a]
    have "\<exists>k. err = KeyError (Label k) \<and> k \<notin> set (dict_keys cs)" by blast
    moreover from g' a have "fst (collect_attributes cs props s) = Inl err"
      by (simp add: fst_collect_attributes)
    ultimately show ?thesis using that [of err] by blast
  qed
qed

lemma make_classes_uuids:
  "make_classes e nds acc s = (cs, s') \<Longrightarrow> inj_on (uuid4 e) {..<uuid_calls s + length nds} \<Longrightarrow>
     distinct (map uuid (dict_values acc)) \<Longrightarrow>
     \<forall>c \<in> set (dict_values acc). \<exists>i < uuid_calls s. uuid c = uuid4 e i \<Longrightarrow>
     distinct (map uuid (dict_values cs)) \<and>
     (\<forall>c \<in> set (dict_values cs). \<exists>i < uuid_calls s + length nds. uuid c = uuid4 e i)"
proof (induction nds arbitrary: acc s)
  case Nil
  then show ?case by simp
next
  case (Cons nd nds)
  obtain c s1 where mc: "make_class e nd s = (c, s1)" by (cases "make_class e nd s")
  let ?acc1 = "dict_set acc (name nd) c"
  from mc have c: "uuid c = uuid4 e (uuid_calls s)" and s1: "uuid_calls s1 = Suc (uuid_calls s)"
    by (auto simp: make_class_eq)
  have fresh: "uuid c \<notin> uuid ` set (dict_values acc)"
  proof
    assume "uuid c \<in> uuid ` set (dict_values acc)"
    then obtain c' where "c' \<in> set (dict_values acc)" "uuid c' = uuid c" by auto
    with Cons.prems(4) obtain i where i: "i < uuid_calls s" "uuid4 e i = uuid4 e (uuid_calls s)"
      unfolding c by metis
    from i(1) have "i \<in> {..<uuid_calls s + length (nd # nds)}"
      "uuid_calls s \<in> {..<uuid_calls s + length (nd # nds)}" by simp_all
    with Cons.prems(2) i(2) have "i = uuid_calls s" by (rule inj_onD)
    with i(1) show False by simp
  qed
  with Cons.prems(3) have d: "distinct (map uuid (dict_values ?acc1))"
    by (rule distinct_values_dict_set)
  have b: "\<forall>x \<in> set (dict_values ?acc1). \<exists>i < uuid_calls s1. uuid x = uuid4 e i"
  proof
    fix x assume "x \<in> set (dict_values ?acc1)"
    with dict_set_values [of acc "name nd" c] have "x = c \<or> x \<in> set (dict_values acc)" by auto
    then show "\<exists>i < uuid_calls s1. uuid x = uuid4 e i"
    proof
      assume "x = c"
      with c s1 show ?thesis by auto
    next
      assume "x \<in> set (dict_values acc)"
      with Cons.prems(4) obtain i where "i < uuid_calls s" "uuid x = uuid4 e i" by auto
      with s1 show ?thesis by (auto intro: exI [of _ i])
    qed
  qed
  from Cons.prems(2) s1 have inj: "inj_on (uuid4 e) {..<uuid_calls s1 + length nds}" by simp
  from Cons.prems(1) mc have "make_classes e nds ?acc1 s1 = (cs, s')" by simp
  from Cons.IH [OF this inj d b] s1 show ?case by simp
qed

lemma make_rels_append:
  "make_rels e (xs @ ys) acc s =
     (case make_rels e xs acc s of
        (Inl err, s1) \<Rightarrow> (Inl err, s1)
      | (Inr a, s1) \<Rightarrow> make_rels e ys a s1)"
proof (induction xs arbitrary: acc s)
  case Nil
  then show ?case by simp
next
  case (Cons x xs)
  obtain r s1 where mr: "make_rel e x s = (r, s1)" by (cases "make_rel e x s")
  then show ?case using Cons.IH by (cases r) simp_all
qed

lemma make_rels_get_other:
  "make_rels e rels acc s = (Inr rs, s') \<Longrightarrow> k \<notin> rel_type ` set rels \<Longrightarrow>
     dict_get rs k = dict_get acc k"
proof (induction rels arbitrary: acc s)
  case Nil
  then show ?case by simp
next
  case (Cons rel rels)
  from Cons.prems(1) obtain r where
    "make_rels e rels (dict_set acc (rel_type rel) r) (s\<lparr>uuid_calls := Suc (uuid_calls s)\<rparr>)
       = (Inr rs, s')"
    by (rule make_rels_step)
  from Cons.IH [OF this] Cons.prems(2) show ?case by (simp add: dict_get_set)
qed

lemma make_classes_last_wins:
  assumes "make_classes e (pre @ nd # post) acc s = (cs, s')" and "name nd \<notin> name ` set post"
  shows "dict_get cs (name nd) = Some (fst (make_class e nd (snd (make_classes e pre acc s))))"
proof -
  obtain a s2 where pre: "make_classes e pre acc s = (a, s2)" by (cases "make_classes e pre acc s")
  obtain c s3 where mc: "make_class e nd s2 = (c, s3)" by (cases "make_class e nd s2")
  from assms(1) pre mc have "cs = fst (make_classes e post (dict_set a (name nd) c) s3)"
    by (simp add: make_classes_append)
  with make_classes_get_other [OF assms(2), of e "dict_set a (name nd) c" s3]
  have "dict_get cs (name nd) = Some c" by (simp add: dict_get_set)
  with pre mc show ?thesis by simp
qed

lemma make_rels_last_wins:
  assumes "make_rels e (pre @ rel # post) acc s = (Inr rs, s')"
    and "rel_type rel \<notin> rel_type ` set post"
  shows "\<exists>r. fst (make_rel e rel (snd (make_rels e pre acc s))) = Inr r \<and>
             dict_get rs (rel_type rel) = Some r"
proof -
  obtain x s2 where pre: "make_rels e pre acc s = (x, s2)" by (cases "make_rels e pre acc s")
  show ?thesis
  proof (cases x)
    case (Inl err)
    with assms(1) pre show ?thesis by (simp add: make_rels_append)
  next
    case (Inr a)
    with assms(1) pre have "make_rels e (rel # post) a s2 = (Inr rs, s')"
      by (simp add: make_rels_append)
    then obtain r where r: "fst (make_rel e rel s2) = Inr r"
      and rest: "make_rels e post (dict_set a (rel_type rel) r) (s2\<lparr>uuid_calls := Suc (uuid_calls s2)\<rparr>)
                   = (Inr rs, s')"
      by (rule make_rels_step)
    from make_rels_get_other [OF rest assms(2)] have "dict_get rs (rel_type rel) = Some r"
      by (simp add: dict_get_set)
    with r pre show ?thesis by simp
  qed
qed

lemma length_dict_distinct: "distinct (dict_keys d) \<Longrightarrow> length d = card (set (dict_keys d))"
  by (simp add: distinct_card length_dict_keys)

lemma populate_schema_succeeds:
  assumes "\<forall>rel \<in> set rels. node_id (fst (nodes rel)) \<in> node_id ` set nds \<and>
                              node_id (snd (nodes rel)) \<in> node_id ` set nds"
  shows "\<exists>cs rs s'. populate_schema e nds rels s = (Inr (cs, rs), s')"
proof -
  obtain cs s1 where mc: "make_classes e nds [] s = (cs, s1)" by (cases "make_classes e nds [] s")
  from make_classes_state [OF mc] assms
  have "\<forall>rel \<in> set rels. node_id (fst (nodes rel)) \<in> set (dict_keys (class_uuid s1)) \<and>
                           node_id (snd (nodes rel)) \<in> set (dict_keys (class_uuid s1))"
    by auto
  from make_rels_present [OF this, of e "[]"] obtain rs where "fst (make_rels e rels [] s1) = Inr rs"
    by blast
  then obtain s2 where "make_rels e rels [] s1 = (Inr rs, s2)"
    by (cases "make_rels e rels [] s1") simp
  with mc show ?thesis by (simp add: populate_schema_def)
qed

lemma populate_schema_missing:
  assumes "rel \<in> set rels"
    and "node_id (fst (nodes rel)) \<notin> node_id ` set nds \<or>
         node_id (snd (nodes rel)) \<notin> node_id ` set nds"
  shows "\<exists>k. k \<notin> node_id ` set nds \<and>
             fst (populate_schema e nds rels initial_state) = Inl (KeyError (NodeId k))"
proof -
  obtain cs s1 where mc: "make_classes e nds [] initial_state = (cs, s1)"
    by (cases "make_classes e nds [] initial_state")
  from make_classes_state [OF mc] have keys: "set (dict_keys (class_uuid s1)) = node_id ` set nds"
    by (simp add: initial_state_def)
  with assms
  have "\<exists>rel \<in> set rels. node_id (fst (nodes rel)) \<notin> set (dict_keys (class_uuid s1)) \<or>
                          node_id (snd (nodes rel)) \<notin> set (dict_keys (class_uuid s1))"
    by auto
  from make_rels_missing [OF this, of e "[]"] obtain k where
    k: "fst (make_rels e rels [] s1) = Inl (KeyError (NodeId k))" "k \<notin> set (dict_keys (class_uuid s1))"
    by blast
  obtain s2 where "make_rels e rels [] s1 = (Inl (KeyError (NodeId k)), s2)"
    using k(1) by (cases "make_rels e rels [] s1") simp
  with mc have "fst (populate_schema e nds rels initial_state) = Inl (KeyError (NodeId k))"
    by (simp add: populate_schema_def)
  with k(2) keys show ?thesis by auto
qed

lemma types_mapping_get:
  "(case dict_get TYPES_MAPPING t of None \<Rightarrow> ''STRING'' | Some v \<Rightarrow> v) =
     (if t = ''String'' then ''STRING''
      else if t = ''Long'' then ''NUMBER''
      else if t = ''Double'' then ''DOUBLE''
      else if t = ''StringArray'' then ''STRING''
      else if t = ''Date'' then ''DATE''
      else if t = ''Point'' then ''STRING''
      else if t = ''Boolean'' then ''BOOLEAN''
      else ''STRING'')"
  by (simp add: TYPES_MAPPING_def)

subsection \<open>Claims\<close>

text \<open>
  C9 (scenario A). One node record named \<open>Person\<close>, no relationship record and the
  property record \<open>{nodeLabels: ['Person'], propertyName: 'age', propertyTypes: ['Long']}\<close>
  give a document with exactly one class, labelled \<open>Person\<close>, whose attribute list is
  exactly \<open>[{'label': 'age', 'type': 'NUMBER'}]\<close>, and an empty relationship list;
  this for every node identity, every \<open>nodeType\<close> column and all values of the
  generators.
\<close>

theorem scenario_A_person_age:
  "fst (converter_init e [\<lparr>node_id = i, name = ''Person''\<rparr>] []
          [\<lparr>nodeLabels = [''Person''], propertyName = ''age'', nodeType = nt,
            propertyTypes = [''Long'']\<rparr>])
   = Inr \<lparr>classes =
            [\<lparr>label = ''Person'',
              canvasPosition = \<lparr>pos_x = 100 + int (random_draw e 0) mod 1101,
                                pos_y = 50 + int (random_draw e 1) mod 751\<rparr>,
              icon = ''mdi-circle-outline'', color = ''#aaa'', uuid = uuid4 e 0,
              attributes = Some [\<lparr>attr_label = ''age'', attr_type = ''NUMBER''\<rparr>]\<rparr>],
          relationships = []\<rparr>"
  by (simp add: converter_init_def populate_schema_def make_class_def fresh_uuid_def
      random_canvas_position_def randint_def initial_state_def log_call_def
      collect_attributes_def to_hume_type_def dict_get_def TYPES_MAPPING_def
      setdefault_append_def dict_values_def gather_attributes.simps(2))

text \<open>
  C1. For a property record whose list of observed types is not empty, \<open>_to_hume_type\<close>
  returns what the table gives for the first observed type: \<open>String\<close> \<open>STRING\<close>,
  \<open>Long\<close> \<open>NUMBER\<close>, \<open>Double\<close> \<open>DOUBLE\<close>, \<open>StringArray\<close> \<open>STRING\<close>, \<open>Date\<close>
  \<open>DATE\<close>, \<open>Point\<close> \<open>STRING\<close>, \<open>Boolean\<close> \<open>BOOLEAN\<close>, and \<open>STRING\<close> for every other
  first type. Whatever it returns is one of \<open>STRING\<close>, \<open>NUMBER\<close>, \<open>DOUBLE\<close>, \<open>DATE\<close>,
  \<open>BOOLEAN\<close>. In a document, the attributes of a class are, in order, those of the
  property records that name its label alone: each attribute has its record's property
  name, and its type is what the table gives for the first observed type of that
  record, so it is one of the five.
\<close>

theorem first_type_resolved_through_table:
  "(propertyTypes nd = t # ts \<longrightarrow>
      fst (to_hume_type nd s) =
        Inr (if t = ''String'' then ''STRING''
             else if t = ''Long'' then ''NUMBER''
             else if t = ''Double'' then ''DOUBLE''
             else if t = ''StringArray'' then ''STRING''
             else if t = ''Date'' then ''DATE''
             else if t = ''Point'' then ''STRING''
             else if t = ''Boolean'' then ''BOOLEAN''
             else ''STRING'')) \<and>
   (fst (to_hume_type nd s) = Inr v \<longrightarrow>
      v \<in> {''STRING'', ''NUMBER'', ''DOUBLE'', ''DATE'', ''BOOLEAN''}) \<and>
   (fst (converter_init e nds rels props) = Inr doc \<longrightarrow>
      (\<forall>c \<in> set (classes doc). \<forall>as. attributes c = Some as \<longrightarrow>
         list_all2
           (\<lambda>a p. attr_label a = propertyName p \<and>
              (\<exists>t ts. propertyTypes p = t # ts \<and>
                 attr_type a =
                   (if t = ''String'' then ''STRING''
                    else if t = ''Long'' then ''NUMBER''
                    else if t = ''Double'' then ''DOUBLE''
                    else if t = ''StringArray'' then ''STRING''
                    else if t = ''Date'' then ''DATE''
                    else if t = ''Point'' then ''STRING''
                    else if t = ''Boolean'' then ''BOOLEAN''
                    else ''STRING'')))
           as [p \<leftarrow> props. nodeLabels p = [label c]] \<and>
         (\<forall>a \<in> set as. attr_type a \<in> {''STRING'', ''NUMBER'', ''DOUBLE'', ''DATE'', ''BOOLEAN''})))"
proof (intro conjI impI ballI allI)
  assume "propertyTypes nd = t # ts"
  then show "fst (to_hume_type nd s) =
        Inr (if t = ''String'' then ''STRING''
             else if t = ''Long'' then ''NUMBER''
             else if t = ''Double'' then ''DOUBLE''
             else if t = ''StringArray'' then ''STRING''
             else if t = ''Date'' then ''DATE''
             else if t = ''Point'' then ''STRING''
             else if t = ''Boolean'' then ''BOOLEAN''
             else ''STRING'')"
    by (simp add: fst_to_hume_type types_mapping_get)
next
  assume "fst (to_hume_type nd s) = Inr v"
  then obtain t' where "v = (case dict_get TYPES_MAPPING t' of None \<Rightarrow> ''STRING'' | Some v \<Rightarrow> v)"
    unfolding fst_to_hume_type by (cases "propertyTypes nd") auto
  then show "v \<in> {''STRING'', ''NUMBER'', ''DOUBLE'', ''DATE'', ''BOOLEAN''}"
    using mapped_type_in_enumeration [of t'] by simp
next
  fix c as
  assume init: "fst (converter_init e nds rels props) = Inr doc" and c: "c \<in> set (classes doc)"
    and as: "attributes c = Some as"
  from init c obtain c0 new where c0: "attributes c0 = None"
    and new: "list_all2
       (\<lambda>a p. attr_label a = propertyName p \<and>
          (\<exists>t ts. propertyTypes p = t # ts \<and>
             attr_type a = (case dict_get TYPES_MAPPING t of None \<Rightarrow> ''STRING'' | Some v \<Rightarrow> v)))
       new [p \<leftarrow> props. nodeLabels p = [label c]]"
    and eq: "c = (if new = [] then c0 else c0\<lparr>attributes := Some new\<rparr>)"
    by (rule document_class)
  from eq as c0 have as_new: "as = new" by (simp split: if_splits)
  from new show "list_all2
           (\<lambda>a p. attr_label a = propertyName p \<and>
              (\<exists>t ts. propertyTypes p = t # ts \<and>
                 attr_type a =
                   (if t = ''String'' then ''STRING''
                    else if t = ''Long'' then ''NUMBER''
                    else if t = ''Double'' then ''DOUBLE''
                    else if t = ''StringArray'' then ''STRING''
                    else if t = ''Date'' then ''DATE''
                    else if t = ''Point'' then ''STRING''
                    else if t = ''Boolean'' then ''BOOLEAN''
                    else ''STRING'')))
           as [p \<leftarrow> props. nodeLabels p = [label c]]"
    unfolding as_new types_mapping_get .
  fix a
  assume "a \<in> set as"
  with as_new obtain i where i: "i < length new" "a = new ! i" by (auto simp: in_set_conv_nth)
  with new obtain t' where
    "attr_type a = (case dict_get TYPES_MAPPING t' of None \<Rightarrow> ''STRING'' | Some v \<Rightarrow> v)"
    by (auto simp: list_all2_conv_all_nth)
  then show "attr_type a \<in> {''STRING'', ''NUMBER'', ''DOUBLE'', ''DATE'', ''BOOLEAN''}"
    using mapped_type_in_enumeration [of t'] by simp
qed

text \<open>
  The theorem of C1 at a class with four property records: two observed types, a
  \<open>String\<close>, a \<open>Date\<close> and a type the table does not have.
\<close>

theorem first_type_resolved_through_table_witness:
  "fst (to_hume_type \<lparr>nodeLabels = [''Person''], propertyName = ''age'', nodeType = ''Person'',
                       propertyTypes = [''Long'', ''String'']\<rparr> initial_state) = Inr ''NUMBER'' \<and>
   fst (converter_init \<lparr>uuid4 = (\<lambda>n. ''u''), random_draw = (\<lambda>n. 0)\<rparr>
          [\<lparr>node_id = 0, name = ''Person''\<rparr>] []
          [\<lparr>nodeLabels = [''Person''], propertyName = ''age'', nodeType = ''Person'',
            propertyTypes = [''Long'', ''String'']\<rparr>,
           \<lparr>nodeLabels = [''Person''], propertyName = ''name'', nodeType = ''Person'',
            propertyTypes = [''String'']\<rparr>,
           \<lparr>nodeLabels = [''Person''], propertyName = ''born'', nodeType = ''Person'',
            propertyTypes = [''Date'']\<rparr>,
           \<lparr>nodeLabels = [''Person''], propertyName = ''origin'', nodeType = ''Person'',
            propertyTypes = [''Alien'']\<rparr>])
     = Inr \<lparr>classes =
              [\<lparr>label = ''Person'', canvasPosition = \<lparr>pos_x = 100, pos_y = 50\<rparr>,
                icon = ''mdi-circle-outline'', color = ''#aaa'', uuid = ''u'',
                attributes = Some [\<lparr>attr_label = ''age'', attr_type = ''NUMBER''\<rparr>,
                                   \<lparr>attr_label = ''name'', attr_type = ''STRING''\<rparr>,
                                   \<lparr>attr_label = ''born'', attr_type = ''DATE''\<rparr>,
                                   \<lparr>attr_label = ''origin'', attr_type = ''STRING''\<rparr>]\<rparr>],
            relationships = []\<rparr> \<and>
   list_all2
     (\<lambda>a p. attr_label a = propertyName p \<and>
        (\<exists>t ts. propertyTypes p = t # ts \<and>
           attr_type a =
             (if t = ''String'' then ''STRING''
              else if t = ''Long'' then ''NUMBER''
              else if t = ''Double'' then ''DOUBLE''
              else if t = ''StringArray'' then ''STRING''
              else if t = ''Date'' then ''DATE''
              else if t = ''Point'' then ''STRING''
              else if t = ''Boolean'' then ''BOOLEAN''
              else ''STRING'')))
     [\<lparr>attr_label = ''age'', attr_type = ''NUMBER''\<rparr>,
      \<lparr>attr_label = ''name'', attr_type = ''STRING''\<rparr>,
      \<lparr>attr_label = ''born'', attr_type = ''DATE''\<rparr>,
      \<lparr>attr_label = ''origin'', attr_type = ''STRING''\<rparr>]
     [\<lparr>nodeLabels = [''Person''], propertyName = ''age'', nodeType = ''Person'',
       propertyTypes = [''Long'', ''String'']\<rparr>,
      \<lparr>nodeLabels = [''Person''], propertyName = ''name'', nodeType = ''Person'',
       propertyTypes = [''String'']\<rparr>,
      \<lparr>nodeLabels = [''Person''], propertyName = ''born'', nodeType = ''Person'',
       propertyTypes = [''Date'']\<rparr>,
      \<lparr>nodeLabels = [''Person''], propertyName = ''origin'', nodeType = ''Person'',
       propertyTypes = [''Alien'']\<rparr>]"
proof -
  have run: "fst (converter_init \<lparr>uuid4 = (\<lambda>n. ''u''), random_draw = (\<lambda>n. 0)\<rparr>
          [\<lparr>node_id = 0, name = ''Person''\<rparr>] []
          [\<lparr>nodeLabels = [''Person''], propertyName = ''age'', nodeType = ''Person'',
            propertyTypes = [''Long'', ''String'']\<rparr>,
           \<lparr>nodeLabels = [''Person''], propertyName = ''name'', nodeType = ''Person'',
            propertyTypes = [''String'']\<rparr>,
           \<lparr>nodeLabels = [''Person''], propertyName = ''born'', nodeType = ''Person'',
            propertyTypes = [''Date'']\<rparr>,
           \<lparr>nodeLabels = [''Person''], propertyName = ''origin'', nodeType = ''Person'',
            propertyTypes = [''Alien'']\<rparr>])
     = Inr \<lparr>classes =
              [\<lparr>label = ''Person'', canvasPosition = \<lparr>pos_x = 100, pos_y = 50\<rparr>,
                icon = ''mdi-circle-outline'', color = ''#aaa'', uuid = ''u'',
                attributes = Some [\<lparr>attr_label = ''age'', attr_type = ''NUMBER''\<rparr>,
                                   \<lparr>attr_label = ''name'', attr_type = ''STRING''\<rparr>,
                                   \<lparr>attr_label = ''born'', attr_type = ''DATE''\<rparr>,
                                   \<lparr>attr_label = ''origin'', attr_type = ''STRING''\<rparr>]\<rparr>],
            relationships = []\<rparr>"
    by (simp add: run_defs)
  have types: "propertyTypes \<lparr>nodeLabels = [''Person''], propertyName = ''age'', nodeType = ''Person'',
                       propertyTypes = [''Long'', ''String'']\<rparr> = ''Long'' # [''String'']"
    by simp
  note inst = first_type_resolved_through_table
    [where nd = "\<lparr>nodeLabels = [''Person''], propertyName = ''age'', nodeType = ''Person'',
                   propertyTypes = [''Long'', ''String'']\<rparr>"
       and t = "''Long''" and ts = "[''String'']" and s = initial_state and v = "''NUMBER''"
       and e = "\<lparr>uuid4 = (\<lambda>n. ''u''), random_draw = (\<lambda>n. 0)\<rparr>"
       and nds = "[\<lparr>node_id = 0, name = ''Person''\<rparr>]" and rels = "[]"
       and props = "[\<lparr>nodeLabels = [''Person''], propertyName = ''age'', nodeType = ''Person'',
            propertyTypes = [''Long'', ''String'']\<rparr>,
           \<lparr>nodeLabels = [''Person''], propertyName = ''name'', nodeType = ''Person'',
            propertyTypes = [''String'']\<rparr>,
           \<lparr>nodeLabels = [''Person''], propertyName = ''born'', nodeType = ''Person'',
            propertyTypes = [''Date'']\<rparr>,
           \<lparr>nodeLabels = [''Person''], propertyName = ''origin'', nodeType = ''Person'',
            propertyTypes = [''Alien'']\<rparr>]"
       and doc = "\<lparr>classes =
              [\<lparr>label = ''Person'', canvasPosition = \<lparr>pos_x = 100, pos_y = 50\<rparr>,
                icon = ''mdi-circle-outline'', color = ''#aaa'', uuid = ''u'',
                attributes = Some [\<lparr>attr_label = ''age'', attr_type = ''NUMBER''\<rparr>,
                                   \<lparr>attr_label = ''name'', attr_type = ''STRING''\<rparr>,
                                   \<lparr>attr_label = ''born'', attr_type = ''DATE''\<rparr>,
                                   \<lparr>attr_label = ''origin'', attr_type = ''STRING''\<rparr>]\<rparr>],
            relationships = []\<rparr>"]
  from inst types have 1: "fst (to_hume_type \<lparr>nodeLabels = [''Person''], propertyName = ''age'', nodeType = ''Person'',
                       propertyTypes = [''Long'', ''String'']\<rparr> initial_state) = Inr ''NUMBER''"
    by simp
  from inst run have 3: "list_all2
     (\<lambda>a p. attr_label a = propertyName p \<and>
        (\<exists>t ts. propertyTypes p = t # ts \<and>
           attr_type a =
             (if t = ''String'' then ''STRING''
              else if t = ''Long'' then ''NUMBER''
              else if t = ''Double'' then ''DOUBLE''
              else if t = ''StringArray'' then ''STRING''
              else if t = ''Date'' then ''DATE''
              else if t = ''Point'' then ''STRING''
              else if t = ''Boolean'' then ''BOOLEAN''
              else ''STRING'')))
     [\<lparr>attr_label = ''age'', attr_type = ''NUMBER''\<rparr>,
      \<lparr>attr_label = ''name'', attr_type = ''STRING''\<rparr>,
      \<lparr>attr_label = ''born'', attr_type = ''DATE''\<rparr>,
      \<lparr>attr_label = ''origin'', attr_type = ''STRING''\<rparr>]
     [\<lparr>nodeLabels = [''Person''], propertyName = ''age'', nodeType = ''Person'',
       propertyTypes = [''Long'', ''String'']\<rparr>,
      \<lparr>nodeLabels = [''Person''], propertyName = ''name'', nodeType = ''Person'',
       propertyTypes = [''String'']\<rparr>,
      \<lparr>nodeLabels = [''Person''], propertyName = ''born'', nodeType = ''Person'',
       propertyTypes = [''Date'']\<rparr>,
      \<lparr>nodeLabels = [''Person''], propertyName = ''origin'', nodeType = ''Person'',
       propertyTypes = [''Alien'']\<rparr>]"
    by simp
  from 1 run 3 show ?thesis by (intro conjI)
qed

text \<open>
  C7, as the code has it. \<open>_make_class\<close> builds a class without the key
  \<open>'attributes'\<close>. A class of the document has the key exactly when some property record
  names its label as its only label, and the list stored is then not empty: it has one
  attribute for each such record.
\<close>

theorem attributes_field_iff_addressed:
  "attributes (fst (make_class e nd s)) = None \<and>
   (fst (converter_init e nds rels props) = Inr doc \<longrightarrow>
      (\<forall>c \<in> set (classes doc).
         (attributes c = None \<longleftrightarrow> (\<forall>p \<in> set props. nodeLabels p \<noteq> [label c])) \<and>
         (\<forall>as. attributes c = Some as \<longrightarrow>
            as \<noteq> [] \<and> length as = length [p \<leftarrow> props. nodeLabels p = [label c]])))"
proof (intro conjI impI ballI allI)
  show "attributes (fst (make_class e nd s)) = None" by (simp add: make_class_eq)
next
  fix c
  assume init: "fst (converter_init e nds rels props) = Inr doc" and c: "c \<in> set (classes doc)"
  from init c obtain c0 new where c0: "attributes c0 = None"
    and new: "list_all2
       (\<lambda>a p. attr_label a = propertyName p \<and>
          (\<exists>t ts. propertyTypes p = t # ts \<and>
             attr_type a = (case dict_get TYPES_MAPPING t of None \<Rightarrow> ''STRING'' | Some v \<Rightarrow> v)))
       new [p \<leftarrow> props. nodeLabels p = [label c]]"
    and eq: "c = (if new = [] then c0 else c0\<lparr>attributes := Some new\<rparr>)"
    by (rule document_class)
  from new have len: "length new = length [p \<leftarrow> props. nodeLabels p = [label c]]"
    by (rule list_all2_lengthD)
  from eq c0 have "attributes c = None \<longleftrightarrow> new = []" by (simp split: if_splits)
  also from len have "\<dots> \<longleftrightarrow> [p \<leftarrow> props. nodeLabels p = [label c]] = []" by auto
  also have "\<dots> \<longleftrightarrow> (\<forall>p \<in> set props. nodeLabels p \<noteq> [label c])"
    by (simp add: filter_empty_conv)
  finally show "attributes c = None \<longleftrightarrow> (\<forall>p \<in> set props. nodeLabels p \<noteq> [label c])" .
  fix as
  assume as: "attributes c = Some as"
  with eq c0 have "as = new" "new \<noteq> []" by (auto split: if_splits)
  with len show "as \<noteq> []" "length as = length [p \<leftarrow> props. nodeLabels p = [label c]]"
    by simp_all
qed

text \<open>The theorem of C7 at the run of scenario A.\<close>

theorem attributes_field_iff_addressed_witness:
  "fst (converter_init \<lparr>uuid4 = (\<lambda>n. ''u''), random_draw = (\<lambda>n. 0)\<rparr>
          [\<lparr>node_id = 0, name = ''Person''\<rparr>] []
          [\<lparr>nodeLabels = [''Person''], propertyName = ''age'', nodeType = ''Person'',
            propertyTypes = [''Long'']\<rparr>])
     = Inr \<lparr>classes =
              [\<lparr>label = ''Person'', canvasPosition = \<lparr>pos_x = 100, pos_y = 50\<rparr>,
                icon = ''mdi-circle-outline'', color = ''#aaa'', uuid = ''u'',
                attributes = Some [\<lparr>attr_label = ''age'', attr_type = ''NUMBER''\<rparr>]\<rparr>],
            relationships = []\<rparr> \<and>
   length [\<lparr>attr_label = ''age'', attr_type = ''NUMBER''\<rparr>] =
     length [p \<leftarrow> [\<lparr>nodeLabels = [''Person''], propertyName = ''age'', nodeType = ''Person'',
                       propertyTypes = [''Long'']\<rparr>]. nodeLabels p = [''Person'']]"
  using attributes_field_iff_addressed
    [where e = "\<lparr>uuid4 = (\<lambda>n. ''u''), random_draw = (\<lambda>n. 0)\<rparr>"
       and nds = "[\<lparr>node_id = 0, name = ''Person''\<rparr>]" and rels = "[]"
       and props = "[\<lparr>nodeLabels = [''Person''], propertyName = ''age'', nodeType = ''Person'',
                      propertyTypes = [''Long'']\<rparr>]"
       and doc = "\<lparr>classes =
              [\<lparr>label = ''Person'', canvasPosition = \<lparr>pos_x = 100, pos_y = 50\<rparr>,
                icon = ''mdi-circle-outline'', color = ''#aaa'', uuid = ''u'',
                attributes = Some [\<lparr>attr_label = ''age'', attr_type = ''NUMBER''\<rparr>]\<rparr>],
            relationships = []\<rparr>"]
  by (simp add: run_defs)

text \<open>
  C7 as stated fails: with one node record and no property record, the class of the
  document has no key \<open>'attributes'\<close>.
\<close>

theorem class_without_property_record_has_no_attributes:
  "fst (converter_init \<lparr>uuid4 = (\<lambda>n. ''u''), random_draw = (\<lambda>n. 0)\<rparr>
          [\<lparr>node_id = 0, name = ''Person''\<rparr>] [] [])
     = Inr \<lparr>classes =
              [\<lparr>label = ''Person'', canvasPosition = \<lparr>pos_x = 100, pos_y = 50\<rparr>,
                icon = ''mdi-circle-outline'', color = ''#aaa'', uuid = ''u'',
                attributes = None\<rparr>],
            relationships = []\<rparr>"
  by (simp add: run_defs)

text \<open>
  C10. When \<open>collect_attributes\<close> returns, the class dictionary has the same keys in the
  same order, and every class has the \<open>label\<close>, \<open>uuid\<close>, \<open>canvasPosition\<close>, \<open>icon\<close> and
  \<open>color\<close> it had before: only \<open>attributes\<close> can differ.
\<close>

theorem collect_attributes_changes_attributes_only:
  assumes "collect_attributes cs props s = (Inr cs', s')"
  shows "list_all2
           (\<lambda>kv' kv. fst kv' = fst kv \<and> label (snd kv') = label (snd kv) \<and>
              uuid (snd kv') = uuid (snd kv) \<and>
              canvasPosition (snd kv') = canvasPosition (snd kv) \<and>
              icon (snd kv') = icon (snd kv) \<and> color (snd kv') = color (snd kv))
           cs' cs"
proof -
  let ?f = "\<lambda>kv. (fst kv, (snd kv)\<lparr>attributes := None\<rparr>)"
  from assms obtain am where "attach_attributes am cs = Inr cs'"
    by (rule collect_attributes_Inr)
  then have "map ?f cs' = map ?f cs" by (rule attach_attributes_frame)
  then have "list_all2 (\<lambda>kv' kv. ?f kv' = ?f kv) cs' cs"
    by (auto simp: list_all2_conv_all_nth list_eq_iff_nth_eq)
  then show ?thesis
  proof (rule list_all2_mono)
    fix kv' kv :: "string \<times> hume_class"
    assume eq: "?f kv' = ?f kv"
    then have k: "fst kv' = fst kv" and c: "(snd kv')\<lparr>attributes := None\<rparr> = (snd kv)\<lparr>attributes := None\<rparr>"
      by simp_all
    from c have "label ((snd kv')\<lparr>attributes := None\<rparr>) = label ((snd kv)\<lparr>attributes := None\<rparr>)"
      "uuid ((snd kv')\<lparr>attributes := None\<rparr>) = uuid ((snd kv)\<lparr>attributes := None\<rparr>)"
      "canvasPosition ((snd kv')\<lparr>attributes := None\<rparr>) = canvasPosition ((snd kv)\<lparr>attributes := None\<rparr>)"
      "icon ((snd kv')\<lparr>attributes := None\<rparr>) = icon ((snd kv)\<lparr>attributes := None\<rparr>)"
      "color ((snd kv')\<lparr>attributes := None\<rparr>) = color ((snd kv)\<lparr>attributes := None\<rparr>)"
      by simp_all
    with k show "fst kv' = fst kv \<and> label (snd kv') = label (snd kv) \<and>
              uuid (snd kv') = uuid (snd kv) \<and>
              canvasPosition (snd kv') = canvasPosition (snd kv) \<and>
              icon (snd kv') = icon (snd kv) \<and> color (snd kv') = color (snd kv)"
      by simp
  qed
qed

text \<open>The theorem of C10 at a dictionary of one class and one property record.\<close>

theorem collect_attributes_changes_attributes_only_witness:
  "collect_attributes
     [(''Person'', \<lparr>label = ''Person'', canvasPosition = \<lparr>pos_x = 100, pos_y = 50\<rparr>,
                    icon = ''mdi-circle-outline'', color = ''#aaa'', uuid = ''u'',
                    attributes = None\<rparr>)]
     [\<lparr>nodeLabels = [''Person''], propertyName = ''age'', nodeType = ''Person'',
       propertyTypes = [''Long'']\<rparr>] initial_state
   = (Inr [(''Person'', \<lparr>label = ''Person'', canvasPosition = \<lparr>pos_x = 100, pos_y = 50\<rparr>,
                          icon = ''mdi-circle-outline'', color = ''#aaa'', uuid = ''u'',
                          attributes = Some [\<lparr>attr_label = ''age'', attr_type = ''NUMBER''\<rparr>]\<rparr>)],
      initial_state) \<and>
   list_all2
     (\<lambda>kv' kv. fst kv' = fst kv \<and> label (snd kv') = label (snd kv) \<and>
        uuid (snd kv') = uuid (snd kv) \<and>
        canvasPosition (snd kv') = canvasPosition (snd kv) \<and>
        icon (snd kv') = icon (snd kv) \<and> color (snd kv') = color (snd kv))
     [(''Person'', \<lparr>label = ''Person'', canvasPosition = \<lparr>pos_x = 100, pos_y = 50\<rparr>,
                    icon = ''mdi-circle-outline'', color = ''#aaa'', uuid = ''u'',
                    attributes = Some [\<lparr>attr_label = ''age'', attr_type = ''NUMBER''\<rparr>]\<rparr>)]
     [(''Person'', \<lparr>label = ''Person'', canvasPosition = \<lparr>pos_x = 100, pos_y = 50\<rparr>,
                    icon = ''mdi-circle-outline'', color = ''#aaa'', uuid = ''u'',
                    attributes = None\<rparr>)]"
proof -
  have run: "collect_attributes
     [(''Person'', \<lparr>label = ''Person'', canvasPosition = \<lparr>pos_x = 100, pos_y = 50\<rparr>,
                    icon = ''mdi-circle-outline'', color = ''#aaa'', uuid = ''u'',
                    attributes = None\<rparr>)]
     [\<lparr>nodeLabels = [''Person''], propertyName = ''age'', nodeType = ''Person'',
       propertyTypes = [''Long'']\<rparr>] initial_state
   = (Inr [(''Person'', \<lparr>label = ''Person'', canvasPosition = \<lparr>pos_x = 100, pos_y = 50\<rparr>,
                          icon = ''mdi-circle-outline'', color = ''#aaa'', uuid = ''u'',
                          attributes = Some [\<lparr>attr_label = ''age'', attr_type = ''NUMBER''\<rparr>]\<rparr>)],
      initial_state)"
    by (simp add: run_defs)
  from run collect_attributes_changes_attributes_only [OF run] show ?thesis by simp
qed

text \<open>
  C5. A property record with no label or with two or more labels is skipped:
  \<open>collect_attributes\<close> returns, or fails, as it does on the sequence without the
  record, and it logs the warning. When every record with exactly one label has an
  observed type and a label of the class dictionary, \<open>collect_attributes\<close> returns.
  When it returns, the class under a label \<open>l\<close> has one attribute for each record whose
  labels are \<open>[l]\<close>, in the order of the records, with the record's property name and
  the type \<open>_to_hume_type\<close> gives for it; a class that no such record names is unchanged.
\<close>

theorem one_attribute_per_single_label_record:
  "(length (nodeLabels p) \<noteq> 1 \<longrightarrow>
      fst (collect_attributes cs (xs @ p # ys) s) = fst (collect_attributes cs (xs @ ys) s)) \<and>
   ((\<forall>q \<in> set props. \<forall>l. nodeLabels q = [l] \<longrightarrow> propertyTypes q \<noteq> [] \<and> l \<in> set (dict_keys cs)) \<longrightarrow>
      (\<exists>cs' s'. collect_attributes cs props s = (Inr cs', s'))) \<and>
   (collect_attributes cs props s = (Inr cs', s') \<longrightarrow>
      dict_keys cs' = dict_keys cs \<and>
      (\<forall>l c'. dict_get cs' l = Some c' \<longrightarrow>
         (\<exists>c new. dict_get cs l = Some c \<and>
            list_all2 (\<lambda>a q. attr_label a = propertyName q \<and> fst (to_hume_type q s) = Inr (attr_type a))
              new [q \<leftarrow> props. nodeLabels q = [l]] \<and>
            c' = (if new = [] then c else c\<lparr>attributes := Some new\<rparr>))) \<and>
      (\<forall>q \<in> set props. length (nodeLabels q) \<noteq> 1 \<longrightarrow>
         Warning_multiple_labels (nodeType q) (nodeLabels q) \<in> set (logged s')))"
proof (intro conjI impI allI)
  assume "length (nodeLabels p) \<noteq> 1"
  then show "fst (collect_attributes cs (xs @ p # ys) s) = fst (collect_attributes cs (xs @ ys) s)"
    by (simp add: fst_collect_attributes fst_gather_attributes_skip)
next
  assume a: "\<forall>q \<in> set props. \<forall>l. nodeLabels q = [l] \<longrightarrow> propertyTypes q \<noteq> [] \<and> l \<in> set (dict_keys cs)"
  then have "\<forall>p \<in> set props. length (nodeLabels p) = 1 \<longrightarrow> propertyTypes p \<noteq> []"
    by (auto simp: length_one_iff)
  moreover from a have "\<forall>p \<in> set props. \<forall>l. nodeLabels p = [l] \<longrightarrow> l \<in> set (dict_keys cs)"
    by blast
  ultimately show "\<exists>cs' s'. collect_attributes cs props s = (Inr cs', s')"
    by (rule collect_attributes_succeeds)
next
  assume ca: "collect_attributes cs props s = (Inr cs', s')"
  then obtain am where g: "gather_attributes props [] s = (Inr am, s')"
    and at: "attach_attributes am cs = Inr cs'"
    by (rule collect_attributes_Inr)
  from at show "dict_keys cs' = dict_keys cs" by (rule attach_attributes_keys)
  from gather_attributes_logged [OF g]
  show "\<forall>q \<in> set props. length (nodeLabels q) \<noteq> 1 \<longrightarrow>
         Warning_multiple_labels (nodeType q) (nodeLabels q) \<in> set (logged s')"
    by blast
  fix l c'
  assume "dict_get cs' l = Some c'"
  with ca obtain c new where c: "dict_get cs l = Some c"
    and new: "list_all2
       (\<lambda>a p. attr_label a = propertyName p \<and>
          (\<exists>t ts. propertyTypes p = t # ts \<and>
             attr_type a = (case dict_get TYPES_MAPPING t of None \<Rightarrow> ''STRING'' | Some v \<Rightarrow> v)))
       new [p \<leftarrow> props. nodeLabels p = [l]]"
    and eq: "c' = (if new = [] then c else c\<lparr>attributes := Some new\<rparr>)"
    by (rule collect_attributes_get)
  from new have "list_all2 (\<lambda>a q. attr_label a = propertyName q \<and> fst (to_hume_type q s) = Inr (attr_type a))
              new [q \<leftarrow> props. nodeLabels q = [l]]"
    by (rule list_all2_mono) (auto simp: fst_to_hume_type)
  with c eq show "\<exists>c new. dict_get cs l = Some c \<and>
            list_all2 (\<lambda>a q. attr_label a = propertyName q \<and> fst (to_hume_type q s) = Inr (attr_type a))
              new [q \<leftarrow> props. nodeLabels q = [l]] \<and>
            c' = (if new = [] then c else c\<lparr>attributes := Some new\<rparr>)"
    by blast
qed

text \<open>The theorem of C5 at a record with one label followed by a record with two.\<close>

theorem one_attribute_per_single_label_record_witness:
  "fst (collect_attributes
          [(''Person'', \<lparr>label = ''Person'', canvasPosition = \<lparr>pos_x = 100, pos_y = 50\<rparr>,
                         icon = ''mdi-circle-outline'', color = ''#aaa'', uuid = ''u'',
                         attributes = None\<rparr>)]
          ([\<lparr>nodeLabels = [''Person''], propertyName = ''age'', nodeType = ''Person'',
             propertyTypes = [''Long'']\<rparr>] @
           \<lparr>nodeLabels = [''Person'', ''Company''], propertyName = ''since'', nodeType = ''PC'',
             propertyTypes = [''Date'']\<rparr> # [])
          initial_state)
   = Inr [(''Person'', \<lparr>label = ''Person'', canvasPosition = \<lparr>pos_x = 100, pos_y = 50\<rparr>,
                         icon = ''mdi-circle-outline'', color = ''#aaa'', uuid = ''u'',
                         attributes = Some [\<lparr>attr_label = ''age'', attr_type = ''NUMBER''\<rparr>]\<rparr>)] \<and>
   fst (collect_attributes
          [(''Person'', \<lparr>label = ''Person'', canvasPosition = \<lparr>pos_x = 100, pos_y = 50\<rparr>,
                         icon = ''mdi-circle-outline'', color = ''#aaa'', uuid = ''u'',
                         attributes = None\<rparr>)]
          ([\<lparr>nodeLabels = [''Person''], propertyName = ''age'', nodeType = ''Person'',
             propertyTypes = [''Long'']\<rparr>] @ [])
          initial_state)
   = Inr [(''Person'', \<lparr>label = ''Person'', canvasPosition = \<lparr>pos_x = 100, pos_y = 50\<rparr>,
                         icon = ''mdi-circle-outline'', color = ''#aaa'', uuid = ''u'',
                         attributes = Some [\<lparr>attr_label = ''age'', attr_type = ''NUMBER''\<rparr>]\<rparr>)] \<and>
   Warning_multiple_labels ''PC'' [''Person'', ''Company'']
     \<in> set (logged (snd (collect_attributes
          [(''Person'', \<lparr>label = ''Person'', canvasPosition = \<lparr>pos_x = 100, pos_y = 50\<rparr>,
                         icon = ''mdi-circle-outline'', color = ''#aaa'', uuid = ''u'',
                         attributes = None\<rparr>)]
          [\<lparr>nodeLabels = [''Person''], propertyName = ''age'', nodeType = ''Person'',
             propertyTypes = [''Long'']\<rparr>,
           \<lparr>nodeLabels = [''Person'', ''Company''], propertyName = ''since'', nodeType = ''PC'',
             propertyTypes = [''Date'']\<rparr>]
          initial_state)))"
  using one_attribute_per_single_label_record
    [where p = "\<lparr>nodeLabels = [''Person'', ''Company''], propertyName = ''since'', nodeType = ''PC'',
                  propertyTypes = [''Date'']\<rparr>"
       and xs = "[\<lparr>nodeLabels = [''Person''], propertyName = ''age'', nodeType = ''Person'',
                    propertyTypes = [''Long'']\<rparr>]"
       and ys = "[]"
       and cs = "[(''Person'', \<lparr>label = ''Person'', canvasPosition = \<lparr>pos_x = 100, pos_y = 50\<rparr>,
                         icon = ''mdi-circle-outline'', color = ''#aaa'', uuid = ''u'',
                         attributes = None\<rparr>)]"
       and s = initial_state
       and props = "[\<lparr>nodeLabels = [''Person''], propertyName = ''age'', nodeType = ''Person'',
                       propertyTypes = [''Long'']\<rparr>,
                     \<lparr>nodeLabels = [''Person'', ''Company''], propertyName = ''since'', nodeType = ''PC'',
                       propertyTypes = [''Date'']\<rparr>]"
       and cs' = "[(''Person'', \<lparr>label = ''Person'', canvasPosition = \<lparr>pos_x = 100, pos_y = 50\<rparr>,
                         icon = ''mdi-circle-outline'', color = ''#aaa'', uuid = ''u'',
                         attributes = Some [\<lparr>attr_label = ''age'', attr_type = ''NUMBER''\<rparr>]\<rparr>)]"
       and s' = "log_call (Warning_multiple_labels ''PC'' [''Person'', ''Company'']) initial_state"]
  by (simp add: run_defs)

text \<open>
  C4. When a property record names exactly one label and the class dictionary has no
  class of that label, \<open>collect_attributes\<close> raises; the exception is the \<open>KeyError\<close> of
  \<open>classes[key]\<close> for a label outside the dictionary (the spec's ConsistencyError) when
  every record with one label has an observed type. The run then ends in that exception
  and no document is written. When \<open>collect_attributes\<close> returns, the dictionary has the
  keys it had: no class is added.
\<close>

theorem property_record_of_unknown_label_aborts:
  "(q \<in> set props \<and> nodeLabels q = [l] \<and> l \<notin> set (dict_keys cs) \<longrightarrow>
      (\<exists>err. fst (collect_attributes cs props s) = Inl err \<and>
         ((\<forall>p \<in> set props. length (nodeLabels p) = 1 \<longrightarrow> propertyTypes p \<noteq> []) \<longrightarrow>
            (\<exists>k. err = KeyError (Label k) \<and> k \<notin> set (dict_keys cs))))) \<and>
   (q \<in> set props \<and> nodeLabels q = [l] \<and> l \<notin> name ` set nds \<longrightarrow>
      (\<exists>err. fst (converter_init e nds rels props) = Inl err \<and>
         main_output e nds rels props = None \<and>
         ((\<exists>cs rs s1. populate_schema e nds rels initial_state = (Inr (cs, rs), s1)) \<and>
          (\<forall>p \<in> set props. length (nodeLabels p) = 1 \<longrightarrow> propertyTypes p \<noteq> []) \<longrightarrow>
            (\<exists>k. err = KeyError (Label k) \<and> k \<notin> name ` set nds)))) \<and>
   (collect_attributes cs0 props0 s0 = (Inr cs', s') \<longrightarrow> dict_keys cs' = dict_keys cs0)"
proof (intro conjI impI)
  assume a: "q \<in> set props \<and> nodeLabels q = [l] \<and> l \<notin> set (dict_keys cs)"
  then obtain err where "fst (collect_attributes cs props s) = Inl err"
    "(\<forall>p \<in> set props. length (nodeLabels p) = 1 \<longrightarrow> propertyTypes p \<noteq> []) \<Longrightarrow>
       \<exists>k. err = KeyError (Label k) \<and> k \<notin> set (dict_keys cs)"
    using collect_attributes_unknown_label [of q props l cs s] by blast
  then show "\<exists>err. fst (collect_attributes cs props s) = Inl err \<and>
         ((\<forall>p \<in> set props. length (nodeLabels p) = 1 \<longrightarrow> propertyTypes p \<noteq> []) \<longrightarrow>
            (\<exists>k. err = KeyError (Label k) \<and> k \<notin> set (dict_keys cs)))"
    by blast
next
  assume a: "q \<in> set props \<and> nodeLabels q = [l] \<and> l \<notin> name ` set nds"
  show "\<exists>err. fst (converter_init e nds rels props) = Inl err \<and>
         main_output e nds rels props = None \<and>
         ((\<exists>cs rs s1. populate_schema e nds rels initial_state = (Inr (cs, rs), s1)) \<and>
          (\<forall>p \<in> set props. length (nodeLabels p) = 1 \<longrightarrow> propertyTypes p \<noteq> []) \<longrightarrow>
            (\<exists>k. err = KeyError (Label k) \<and> k \<notin> name ` set nds))"
  proof (cases rule: converter_init_cases [of e nds rels props])
    case (populate_fails err)
    then have "\<not> (\<exists>cs rs s1. populate_schema e nds rels initial_state = (Inr (cs, rs), s1))"
      by auto
    with populate_fails(2) show ?thesis by (auto simp: main_output_def)
  next
    case (populated cs rs s1)
    from populated(1) obtain s0 where mc: "make_classes e nds [] initial_state = (cs, s0)"
      by (rule populate_schema_Inr)
    from make_classes_keys [OF mc] have keys: "set (dict_keys cs) = name ` set nds" by simp
    let ?s = "log_call (Info_got (length cs) (length rs)) s1"
    from a keys obtain err where err: "fst (collect_attributes cs props ?s) = Inl err"
      "(\<forall>p \<in> set props. length (nodeLabels p) = 1 \<longrightarrow> propertyTypes p \<noteq> []) \<Longrightarrow>
         \<exists>k. err = KeyError (Label k) \<and> k \<notin> set (dict_keys cs)"
      using collect_attributes_unknown_label [of q props l cs ?s] by blast
    from populated(2) err(1) have "fst (converter_init e nds rels props) = Inl err" by simp
    with err(2) keys show ?thesis by (auto simp: main_output_def)
  qed
next
  assume "collect_attributes cs0 props0 s0 = (Inr cs', s')"
  then obtain am where "attach_attributes am cs0 = Inr cs'" by (rule collect_attributes_Inr)
  then show "dict_keys cs' = dict_keys cs0" by (rule attach_attributes_keys)
qed

text \<open>The theorem of C4 at a property record of the label \<open>Company\<close> and the one class \<open>Person\<close>.\<close>

theorem property_record_of_unknown_label_aborts_witness:
  "fst (collect_attributes
          [(''Person'', \<lparr>label = ''Person'', canvasPosition = \<lparr>pos_x = 100, pos_y = 50\<rparr>,
                         icon = ''mdi-circle-outline'', color = ''#aaa'', uuid = ''u'',
                         attributes = None\<rparr>)]
          [\<lparr>nodeLabels = [''Company''], propertyName = ''name'', nodeType = ''Company'',
            propertyTypes = [''String'']\<rparr>] initial_state)
     = Inl (KeyError (Label ''Company'')) \<and>
   fst (converter_init \<lparr>uuid4 = (\<lambda>n. ''u''), random_draw = (\<lambda>n. 0)\<rparr>
          [\<lparr>node_id = 0, name = ''Person''\<rparr>] []
          [\<lparr>nodeLabels = [''Company''], propertyName = ''name'', nodeType = ''Company'',
            propertyTypes = [''String'']\<rparr>])
     = Inl (KeyError (Label ''Company'')) \<and>
   main_output \<lparr>uuid4 = (\<lambda>n. ''u''), random_draw = (\<lambda>n. 0)\<rparr>
          [\<lparr>node_id = 0, name = ''Person''\<rparr>] []
          [\<lparr>nodeLabels = [''Company''], propertyName = ''name'', nodeType = ''Company'',
            propertyTypes = [''String'']\<rparr>] = None \<and>
   dict_keys [(''Person'', \<lparr>label = ''Person'', canvasPosition = \<lparr>pos_x = 100, pos_y = 50\<rparr>,
                         icon = ''mdi-circle-outline'', color = ''#aaa'', uuid = ''u'',
                         attributes = Some [\<lparr>attr_label = ''age'', attr_type = ''NUMBER''\<rparr>]\<rparr>)]
     = [''Person'']"
  using property_record_of_unknown_label_aborts
    [where q = "\<lparr>nodeLabels = [''Company''], propertyName = ''name'', nodeType = ''Company'',
                  propertyTypes = [''String'']\<rparr>"
       and l = "''Company''"
       and props = "[\<lparr>nodeLabels = [''Company''], propertyName = ''name'', nodeType = ''Company'',
                       propertyTypes = [''String'']\<rparr>]"
       and cs = "[(''Person'', \<lparr>label = ''Person'', canvasPosition = \<lparr>pos_x = 100, pos_y = 50\<rparr>,
                         icon = ''mdi-circle-outline'', color = ''#aaa'', uuid = ''u'',
                         attributes = None\<rparr>)]"
       and s = initial_state
       and e = "\<lparr>uuid4 = (\<lambda>n. ''u''), random_draw = (\<lambda>n. 0)\<rparr>"
       and nds = "[\<lparr>node_id = 0, name = ''Person''\<rparr>]" and rels = "[]"
       and cs0 = "[(''Person'', \<lparr>label = ''Person'', canvasPosition = \<lparr>pos_x = 100, pos_y = 50\<rparr>,
                         icon = ''mdi-circle-outline'', color = ''#aaa'', uuid = ''u'',
                         attributes = None\<rparr>)]"
       and props0 = "[\<lparr>nodeLabels = [''Person''], propertyName = ''age'', nodeType = ''Person'',
                       propertyTypes = [''Long'']\<rparr>]"
       and s0 = initial_state
       and cs' = "[(''Person'', \<lparr>label = ''Person'', canvasPosition = \<lparr>pos_x = 100, pos_y = 50\<rparr>,
                         icon = ''mdi-circle-outline'', color = ''#aaa'', uuid = ''u'',
                         attributes = Some [\<lparr>attr_label = ''age'', attr_type = ''NUMBER''\<rparr>]\<rparr>)]"
       and s' = initial_state]
  by (simp add: run_defs)

text \<open>
  C3. \<open>_make_rel\<close> on a relationship record whose start or end node identity is not a
  key of \<open>self._class_uuid\<close> raises \<open>KeyError\<close> for that identity (the spec's
  ConsistencyError) and returns no relationship. When some relationship record of the
  input has an endpoint identity that no node record has, \<open>populate_schema\<close> raises
  that \<open>KeyError\<close>, the constructor ends in it, and no document is written.
\<close>

theorem relationship_with_unknown_endpoint_aborts:
  "(node_id (fst (nodes rel)) \<notin> set (dict_keys (class_uuid s)) \<or>
    node_id (snd (nodes rel)) \<notin> set (dict_keys (class_uuid s)) \<longrightarrow>
      (\<exists>k. k \<notin> set (dict_keys (class_uuid s)) \<and>
           fst (make_rel e rel s) = Inl (KeyError (NodeId k)))) \<and>
   (rel \<in> set rels \<and>
    (node_id (fst (nodes rel)) \<notin> node_id ` set nds \<or>
     node_id (snd (nodes rel)) \<notin> node_id ` set nds) \<longrightarrow>
      (\<exists>k. k \<notin> node_id ` set nds \<and>
           fst (populate_schema e nds rels initial_state) = Inl (KeyError (NodeId k)) \<and>
           fst (converter_init e nds rels props) = Inl (KeyError (NodeId k)) \<and>
           main_output e nds rels props = None))"
proof (intro conjI impI)
  assume a: "node_id (fst (nodes rel)) \<notin> set (dict_keys (class_uuid s)) \<or>
    node_id (snd (nodes rel)) \<notin> set (dict_keys (class_uuid s))"
  obtain x where x: "fst (make_rel e rel s) = x" by simp
  show "\<exists>k. k \<notin> set (dict_keys (class_uuid s)) \<and>
           fst (make_rel e rel s) = Inl (KeyError (NodeId k))"
  proof (cases x)
    case (Inl err)
    with x have "fst (make_rel e rel s) = Inl err" by simp
    then obtain k where "err = KeyError (NodeId k)" "k \<notin> set (dict_keys (class_uuid s))"
      unfolding make_rel_Inl by blast
    with x Inl show ?thesis by auto
  next
    case (Inr r)
    with x have "fst (make_rel e rel s) = Inr r" by simp
    then have "node_id (fst (nodes rel)) \<in> set (dict_keys (class_uuid s))"
      "node_id (snd (nodes rel)) \<in> set (dict_keys (class_uuid s))"
      unfolding make_rel_Inr in_dict_keys by auto
    with a show ?thesis by simp
  qed
next
  assume a: "rel \<in> set rels \<and>
    (node_id (fst (nodes rel)) \<notin> node_id ` set nds \<or>
     node_id (snd (nodes rel)) \<notin> node_id ` set nds)"
  then obtain k where k: "k \<notin> node_id ` set nds"
    "fst (populate_schema e nds rels initial_state) = Inl (KeyError (NodeId k))"
    using populate_schema_missing [of rel rels nds e] by blast
  have "fst (converter_init e nds rels props) = Inl (KeyError (NodeId k))"
  proof (cases rule: converter_init_cases [of e nds rels props])
    case (populate_fails err)
    with k(2) show ?thesis by simp
  next
    case (populated cs rs s1)
    with k(2) show ?thesis by simp
  qed
  with k show "\<exists>k. k \<notin> node_id ` set nds \<and>
           fst (populate_schema e nds rels initial_state) = Inl (KeyError (NodeId k)) \<and>
           fst (converter_init e nds rels props) = Inl (KeyError (NodeId k)) \<and>
           main_output e nds rels props = None"
    by (auto simp: main_output_def)
qed

text \<open>The theorem of C3 at a relationship whose end node has the identity 7, not a node record's.\<close>

theorem relationship_with_unknown_endpoint_aborts_witness:
  "fst (make_rel \<lparr>uuid4 = (\<lambda>n. replicate (Suc n) CHR ''u''), random_draw = (\<lambda>n. 0)\<rparr>
          \<lparr>nodes = (\<lparr>node_id = 1, name = ''Person''\<rparr>, \<lparr>node_id = 7, name = ''Company''\<rparr>),
            rel_type = ''WORKS_AT''\<rparr>
          (initial_state\<lparr>class_uuid := [(1, ''u'')]\<rparr>)) = Inl (KeyError (NodeId 7)) \<and>
   fst (populate_schema \<lparr>uuid4 = (\<lambda>n. replicate (Suc n) CHR ''u''), random_draw = (\<lambda>n. 0)\<rparr>
          [\<lparr>node_id = 1, name = ''Person''\<rparr>]
          [\<lparr>nodes = (\<lparr>node_id = 1, name = ''Person''\<rparr>, \<lparr>node_id = 7, name = ''Company''\<rparr>),
            rel_type = ''WORKS_AT''\<rparr>] initial_state) = Inl (KeyError (NodeId 7)) \<and>
   fst (converter_init \<lparr>uuid4 = (\<lambda>n. replicate (Suc n) CHR ''u''), random_draw = (\<lambda>n. 0)\<rparr>
          [\<lparr>node_id = 1, name = ''Person''\<rparr>]
          [\<lparr>nodes = (\<lparr>node_id = 1, name = ''Person''\<rparr>, \<lparr>node_id = 7, name = ''Company''\<rparr>),
            rel_type = ''WORKS_AT''\<rparr>] []) = Inl (KeyError (NodeId 7)) \<and>
   main_output \<lparr>uuid4 = (\<lambda>n. replicate (Suc n) CHR ''u''), random_draw = (\<lambda>n. 0)\<rparr>
          [\<lparr>node_id = 1, name = ''Person''\<rparr>]
          [\<lparr>nodes = (\<lparr>node_id = 1, name = ''Person''\<rparr>, \<lparr>node_id = 7, name = ''Company''\<rparr>),
            rel_type = ''WORKS_AT''\<rparr>] [] = None"
  using relationship_with_unknown_endpoint_aborts
    [where rel = "\<lparr>nodes = (\<lparr>node_id = 1, name = ''Person''\<rparr>, \<lparr>node_id = 7, name = ''Company''\<rparr>),
                    rel_type = ''WORKS_AT''\<rparr>"
       and s = "initial_state\<lparr>class_uuid := [(1, ''u'')]\<rparr>"
       and e = "\<lparr>uuid4 = (\<lambda>n. replicate (Suc n) CHR ''u''), random_draw = (\<lambda>n. 0)\<rparr>"
       and rels = "[\<lparr>nodes = (\<lparr>node_id = 1, name = ''Person''\<rparr>, \<lparr>node_id = 7, name = ''Company''\<rparr>),
                      rel_type = ''WORKS_AT''\<rparr>]"
       and nds = "[\<lparr>node_id = 1, name = ''Person''\<rparr>]" and props = "[]"]
  by (simp add: run_defs)

text \<open>
  C2, as the code has it. When the node records have pairwise different labels, \<open>start\<close>
  and \<open>endId\<close> of every relationship of the document are the \<open>uuid\<close> of a class of the
  document.
\<close>

theorem endpoints_resolve_when_labels_distinct:
  "distinct (map name nds) \<and> fst (converter_init e nds rels props) = Inr doc \<longrightarrow>
     (\<forall>r \<in> set (relationships doc).
        start r \<in> uuid ` set (classes doc) \<and> endId r \<in> uuid ` set (classes doc))"
proof (intro impI ballI)
  fix r
  assume a: "distinct (map name nds) \<and> fst (converter_init e nds rels props) = Inr doc"
    and r: "r \<in> set (relationships doc)"
  from a obtain cs rs s1 cs' s3 where
    p: "populate_schema e nds rels initial_state = (Inr (cs, rs), s1)"
    and ca: "collect_attributes cs props (log_call (Info_got (length cs) (length rs)) s1) = (Inr cs', s3)"
    and doc: "doc = \<lparr>classes = dict_values cs', relationships = dict_values rs\<rparr>"
    using converter_init_Inr [of e nds rels props doc] by blast
  from p obtain s0 where mc: "make_classes e nds [] initial_state = (cs, s0)"
    and mr: "make_rels e rels [] s0 = (Inr rs, s1)"
    by (rule populate_schema_Inr)
  from a have "set (dict_values (class_uuid s0)) \<subseteq> uuid ` set (dict_values cs)"
    by (intro make_classes_ids_resolve [OF mc]) (simp_all add: initial_state_def)
  moreover from make_rels_endpoints [OF mr] r doc
  have "start r \<in> set (dict_values (class_uuid s0)) \<and> endId r \<in> set (dict_values (class_uuid s0))"
    by simp
  ultimately have "start r \<in> uuid ` set (dict_values cs) \<and> endId r \<in> uuid ` set (dict_values cs)"
    by blast
  moreover from ca obtain am where "attach_attributes am cs = Inr cs'"
    by (rule collect_attributes_Inr)
  then have "map uuid (dict_values cs') = map uuid (dict_values cs)"
    by (rule attach_attributes_uuids)
  then have "uuid ` set (dict_values cs') = uuid ` set (dict_values cs)"
    by (metis set_map)
  ultimately show "start r \<in> uuid ` set (classes doc) \<and> endId r \<in> uuid ` set (classes doc)"
    using doc by simp
qed

text \<open>The theorem of C2 at scenario B: one node \<open>Person\<close> and a relationship \<open>KNOWS\<close> from it to itself.\<close>

theorem endpoints_resolve_when_labels_distinct_witness:
  "distinct (map name [\<lparr>node_id = 1, name = ''Person''\<rparr>]) \<and>
   fst (converter_init \<lparr>uuid4 = (\<lambda>n. replicate (Suc n) CHR ''u''), random_draw = (\<lambda>n. 0)\<rparr>
          [\<lparr>node_id = 1, name = ''Person''\<rparr>]
          [\<lparr>nodes = (\<lparr>node_id = 1, name = ''Person''\<rparr>, \<lparr>node_id = 1, name = ''Person''\<rparr>),
            rel_type = ''KNOWS''\<rparr>] [])
     = Inr \<lparr>classes =
              [\<lparr>label = ''Person'', canvasPosition = \<lparr>pos_x = 100, pos_y = 50\<rparr>,
                icon = ''mdi-circle-outline'', color = ''#aaa'', uuid = ''u'',
                attributes = None\<rparr>],
            relationships =
              [\<lparr>rel_uuid = ''uu'', start = ''u'', startLabel = ''Person'',
                endLabel = ''Person'', endId = ''u'', rel_label = ''KNOWS''\<rparr>]\<rparr> \<and>
   ''u'' \<in> uuid ` set [\<lparr>label = ''Person'', canvasPosition = \<lparr>pos_x = 100, pos_y = 50\<rparr>,
                icon = ''mdi-circle-outline'', color = ''#aaa'', uuid = ''u'',
                attributes = None\<rparr>]"
  using endpoints_resolve_when_labels_distinct
    [where nds = "[\<lparr>node_id = 1, name = ''Person''\<rparr>]"
       and e = "\<lparr>uuid4 = (\<lambda>n. replicate (Suc n) CHR ''u''), random_draw = (\<lambda>n. 0)\<rparr>"
       and rels = "[\<lparr>nodes = (\<lparr>node_id = 1, name = ''Person''\<rparr>, \<lparr>node_id = 1, name = ''Person''\<rparr>),
                      rel_type = ''KNOWS''\<rparr>]"
       and props = "[]"
       and doc = "\<lparr>classes =
              [\<lparr>label = ''Person'', canvasPosition = \<lparr>pos_x = 100, pos_y = 50\<rparr>,
                icon = ''mdi-circle-outline'', color = ''#aaa'', uuid = ''u'',
                attributes = None\<rparr>],
            relationships =
              [\<lparr>rel_uuid = ''uu'', start = ''u'', startLabel = ''Person'',
                endLabel = ''Person'', endId = ''u'', rel_label = ''KNOWS''\<rparr>]\<rparr>"]
  by (simp add: run_defs)

text \<open>
  C2 as stated fails when two node records have the same label. The second record's class
  replaces the first under the label \<open>A\<close>, \<open>self._class_uuid\<close> keeps the first record's
  identifier for the node identity 1, and the relationship between nodes of identity 1
  gets that identifier as \<open>start\<close> and \<open>endId\<close>: no class of the document has it.
\<close>

theorem duplicate_label_leaves_dangling_endpoint:
  "fst (converter_init \<lparr>uuid4 = (\<lambda>n. replicate (Suc n) CHR ''u''), random_draw = (\<lambda>n. 0)\<rparr>
          [\<lparr>node_id = 1, name = ''A''\<rparr>, \<lparr>node_id = 2, name = ''A''\<rparr>]
          [\<lparr>nodes = (\<lparr>node_id = 1, name = ''A''\<rparr>, \<lparr>node_id = 1, name = ''A''\<rparr>),
            rel_type = ''R''\<rparr>] [])
     = Inr \<lparr>classes =
              [\<lparr>label = ''A'', canvasPosition = \<lparr>pos_x = 100, pos_y = 50\<rparr>,
                icon = ''mdi-circle-outline'', color = ''#aaa'', uuid = ''uu'',
                attributes = None\<rparr>],
            relationships =
              [\<lparr>rel_uuid = ''uuu'', start = ''u'', startLabel = ''A'',
                endLabel = ''A'', endId = ''u'', rel_label = ''R''\<rparr>]\<rparr> \<and>
   ''u'' \<notin> uuid ` set [\<lparr>label = ''A'', canvasPosition = \<lparr>pos_x = 100, pos_y = 50\<rparr>,
                icon = ''mdi-circle-outline'', color = ''#aaa'', uuid = ''uu'',
                attributes = None\<rparr>]"
  by (simp add: run_defs)

text \<open>
  C6. When \<open>populate_schema\<close> returns, the class dictionary has as many entries as the
  node records have different labels, and the relationship dictionary as many as the
  relationship records have different types. The class under a label is the one made
  from the last node record of that label, and the relationship under a type is the one
  made from the last relationship record of that type. \<open>populate_schema\<close> returns whenever
  every endpoint identity of a relationship record is a node record's.
\<close>

theorem one_entry_per_label_last_write_wins:
  "(fst (populate_schema e nds rels s) = Inr (cs, rs) \<longrightarrow>
      length cs = card (name ` set nds) \<and> length rs = card (rel_type ` set rels)) \<and>
   (fst (populate_schema e nds rels s) = Inr (cs, rs) \<and>
    nds = pre @ nd # post \<and> name nd \<notin> name ` set post \<longrightarrow>
      dict_get cs (name nd) = Some (fst (make_class e nd (snd (make_classes e pre [] s))))) \<and>
   (fst (populate_schema e nds rels s) = Inr (cs, rs) \<and>
    rels = rpre @ rel # rpost \<and> rel_type rel \<notin> rel_type ` set rpost \<longrightarrow>
      (\<exists>r. fst (make_rel e rel (snd (make_rels e rpre [] (snd (make_classes e nds [] s))))) = Inr r \<and>
           dict_get rs (rel_type rel) = Some r)) \<and>
   ((\<forall>x \<in> set rels. node_id (fst (nodes x)) \<in> node_id ` set nds \<and>
                      node_id (snd (nodes x)) \<in> node_id ` set nds) \<longrightarrow>
      (\<exists>cs rs. fst (populate_schema e nds rels s) = Inr (cs, rs)))"
proof -
  have unpack: "\<exists>s0 s'. make_classes e nds [] s = (cs, s0) \<and> make_rels e rels [] s0 = (Inr rs, s')"
    if "fst (populate_schema e nds rels s) = Inr (cs, rs)"
  proof -
    from that obtain s' where "populate_schema e nds rels s = (Inr (cs, rs), s')"
      by (cases "populate_schema e nds rels s") simp
    then show ?thesis by (rule populate_schema_Inr) blast
  qed
  have counts: "length cs = card (name ` set nds) \<and> length rs = card (rel_type ` set rels)"
    if "fst (populate_schema e nds rels s) = Inr (cs, rs)"
  proof -
    from unpack [OF that] obtain s0 s' where mc: "make_classes e nds [] s = (cs, s0)"
      and mr: "make_rels e rels [] s0 = (Inr rs, s')" by blast
    from make_classes_distinct [OF mc] make_classes_keys [OF mc]
    have "length cs = card (name ` set nds)" by (simp add: length_dict_distinct)
    moreover from make_rels_distinct [OF mr] make_rels_keys [OF mr]
    have "length rs = card (rel_type ` set rels)" by (simp add: length_dict_distinct)
    ultimately show ?thesis ..
  qed
  have classes_last:
    "dict_get cs (name nd) = Some (fst (make_class e nd (snd (make_classes e pre [] s))))"
    if "fst (populate_schema e nds rels s) = Inr (cs, rs) \<and>
        nds = pre @ nd # post \<and> name nd \<notin> name ` set post"
  proof -
    from that unpack obtain s0 where "make_classes e (pre @ nd # post) [] s = (cs, s0)" by blast
    with that show ?thesis by (intro make_classes_last_wins) auto
  qed
  have rels_last:
    "\<exists>r. fst (make_rel e rel (snd (make_rels e rpre [] (snd (make_classes e nds [] s))))) = Inr r \<and>
         dict_get rs (rel_type rel) = Some r"
    if "fst (populate_schema e nds rels s) = Inr (cs, rs) \<and>
        rels = rpre @ rel # rpost \<and> rel_type rel \<notin> rel_type ` set rpost"
  proof -
    from that unpack obtain s0 s' where mc: "make_classes e nds [] s = (cs, s0)"
      and mr: "make_rels e (rpre @ rel # rpost) [] s0 = (Inr rs, s')" by blast
    from make_rels_last_wins [OF mr] that mc show ?thesis by simp
  qed
  have succeeds: "\<exists>cs rs. fst (populate_schema e nds rels s) = Inr (cs, rs)"
    if "\<forall>x \<in> set rels. node_id (fst (nodes x)) \<in> node_id ` set nds \<and>
                         node_id (snd (nodes x)) \<in> node_id ` set nds"
  proof -
    from populate_schema_succeeds [OF that, of e s] obtain cs rs s' where
      "populate_schema e nds rels s = (Inr (cs, rs), s')" by blast
    then have "fst (populate_schema e nds rels s) = Inr (cs, rs)" by simp
    then show ?thesis by blast
  qed
  from counts classes_last rels_last succeeds show ?thesis by blast
qed

text \<open>The theorem of C6 at two node records of the label \<open>A\<close> and two relationship records of the type \<open>R\<close>.\<close>

theorem one_entry_per_label_last_write_wins_witness:
  "fst (populate_schema \<lparr>uuid4 = (\<lambda>n. replicate (Suc n) CHR ''u''), random_draw = (\<lambda>n. 0)\<rparr>
          [\<lparr>node_id = 1, name = ''A''\<rparr>, \<lparr>node_id = 2, name = ''A''\<rparr>]
          [\<lparr>nodes = (\<lparr>node_id = 1, name = ''A''\<rparr>, \<lparr>node_id = 1, name = ''A''\<rparr>), rel_type = ''R''\<rparr>,
           \<lparr>nodes = (\<lparr>node_id = 2, name = ''A''\<rparr>, \<lparr>node_id = 2, name = ''A''\<rparr>), rel_type = ''R''\<rparr>] initial_state)
     = Inr ([(''A'', \<lparr>label = ''A'', canvasPosition = \<lparr>pos_x = 100, pos_y = 50\<rparr>,
                icon = ''mdi-circle-outline'', color = ''#aaa'', uuid = ''uu'',
                attributes = None\<rparr>)],
            [(''R'', \<lparr>rel_uuid = ''uuuu'', start = ''uu'', startLabel = ''A'',
                endLabel = ''A'', endId = ''uu'', rel_label = ''R''\<rparr>)]) \<and>
   length [(''A'', \<lparr>label = ''A'', canvasPosition = \<lparr>pos_x = 100, pos_y = 50\<rparr>,
                icon = ''mdi-circle-outline'', color = ''#aaa'', uuid = ''uu'',
                attributes = None\<rparr>)] = card (name ` set [\<lparr>node_id = 1, name = ''A''\<rparr>, \<lparr>node_id = 2, name = ''A''\<rparr>]) \<and>
   length [(''R'', \<lparr>rel_uuid = ''uuuu'', start = ''uu'', startLabel = ''A'',
                endLabel = ''A'', endId = ''uu'', rel_label = ''R''\<rparr>)]
     = card (rel_type ` set [\<lparr>nodes = (\<lparr>node_id = 1, name = ''A''\<rparr>, \<lparr>node_id = 1, name = ''A''\<rparr>), rel_type = ''R''\<rparr>,
                             \<lparr>nodes = (\<lparr>node_id = 2, name = ''A''\<rparr>, \<lparr>node_id = 2, name = ''A''\<rparr>), rel_type = ''R''\<rparr>]) \<and>
   dict_get [(''A'', \<lparr>label = ''A'', canvasPosition = \<lparr>pos_x = 100, pos_y = 50\<rparr>,
                icon = ''mdi-circle-outline'', color = ''#aaa'', uuid = ''uu'',
                attributes = None\<rparr>)] ''A'' = Some (\<lparr>label = ''A'', canvasPosition = \<lparr>pos_x = 100, pos_y = 50\<rparr>,
                icon = ''mdi-circle-outline'', color = ''#aaa'', uuid = ''uu'',
                attributes = None\<rparr>) \<and>
   dict_get [(''R'', \<lparr>rel_uuid = ''uuuu'', start = ''uu'', startLabel = ''A'',
                endLabel = ''A'', endId = ''uu'', rel_label = ''R''\<rparr>)] ''R'' = Some (\<lparr>rel_uuid = ''uuuu'', start = ''uu'', startLabel = ''A'',
                endLabel = ''A'', endId = ''uu'', rel_label = ''R''\<rparr>)"
  using one_entry_per_label_last_write_wins
    [where e = "\<lparr>uuid4 = (\<lambda>n. replicate (Suc n) CHR ''u''), random_draw = (\<lambda>n. 0)\<rparr>"
       and nds = "[\<lparr>node_id = 1, name = ''A''\<rparr>, \<lparr>node_id = 2, name = ''A''\<rparr>]"
       and rels = "[\<lparr>nodes = (\<lparr>node_id = 1, name = ''A''\<rparr>, \<lparr>node_id = 1, name = ''A''\<rparr>), rel_type = ''R''\<rparr>,
                    \<lparr>nodes = (\<lparr>node_id = 2, name = ''A''\<rparr>, \<lparr>node_id = 2, name = ''A''\<rparr>), rel_type = ''R''\<rparr>]"
       and s = initial_state
       and cs = "[(''A'', \<lparr>label = ''A'', canvasPosition = \<lparr>pos_x = 100, pos_y = 50\<rparr>,
                icon = ''mdi-circle-outline'', color = ''#aaa'', uuid = ''uu'',
                attributes = None\<rparr>)]"
       and rs = "[(''R'', \<lparr>rel_uuid = ''uuuu'', start = ''uu'', startLabel = ''A'',
                endLabel = ''A'', endId = ''uu'', rel_label = ''R''\<rparr>)]"
       and pre = "[\<lparr>node_id = 1, name = ''A''\<rparr>]" and nd = "\<lparr>node_id = 2, name = ''A''\<rparr>" and post = "[]"
       and rpre = "[\<lparr>nodes = (\<lparr>node_id = 1, name = ''A''\<rparr>, \<lparr>node_id = 1, name = ''A''\<rparr>), rel_type = ''R''\<rparr>]"
       and rel = "\<lparr>nodes = (\<lparr>node_id = 2, name = ''A''\<rparr>, \<lparr>node_id = 2, name = ''A''\<rparr>), rel_type = ''R''\<rparr>"
       and rpost = "[]"]
  by (simp add: run_defs)

text \<open>
  C8. When the values \<open>uuid.uuid4()\<close> gives for the node records are pairwise different,
  the classes of the document have pairwise different \<open>uuid\<close>s; each is one of those
  values, and the classes of the document have, in order, the \<open>uuid\<close>s that
  \<open>populate_schema\<close> gave them.
\<close>

theorem class_uuids_unique:
  "inj_on (uuid4 e) {..<length nds} \<and> fst (converter_init e nds rels props) = Inr doc \<longrightarrow>
     distinct (map uuid (classes doc)) \<and>
     set (map uuid (classes doc)) \<subseteq> uuid4 e ` {..<length nds} \<and>
     (\<exists>cs rs s1. populate_schema e nds rels initial_state = (Inr (cs, rs), s1) \<and>
        map uuid (classes doc) = map uuid (dict_values cs))"
proof
  assume a: "inj_on (uuid4 e) {..<length nds} \<and> fst (converter_init e nds rels props) = Inr doc"
  then obtain cs rs s1 cs' s3 where
    p: "populate_schema e nds rels initial_state = (Inr (cs, rs), s1)"
    and ca: "collect_attributes cs props (log_call (Info_got (length cs) (length rs)) s1) = (Inr cs', s3)"
    and doc: "doc = \<lparr>classes = dict_values cs', relationships = dict_values rs\<rparr>"
    using converter_init_Inr [of e nds rels props doc] by blast
  from p obtain s0 where mc: "make_classes e nds [] initial_state = (cs, s0)"
    by (rule populate_schema_Inr)
  from a have inj: "inj_on (uuid4 e) {..<uuid_calls initial_state + length nds}"
    by (simp add: initial_state_def)
  from make_classes_uuids [OF mc inj]
  have d: "distinct (map uuid (dict_values cs))"
    and b: "\<forall>c \<in> set (dict_values cs). \<exists>i < length nds. uuid c = uuid4 e i"
    by (simp_all add: initial_state_def)
  from ca obtain am where "attach_attributes am cs = Inr cs'"
    by (rule collect_attributes_Inr)
  then have same: "map uuid (dict_values cs') = map uuid (dict_values cs)"
    by (rule attach_attributes_uuids)
  from b have "set (map uuid (dict_values cs)) \<subseteq> uuid4 e ` {..<length nds}" by auto
  with d same p doc show "distinct (map uuid (classes doc)) \<and>
     set (map uuid (classes doc)) \<subseteq> uuid4 e ` {..<length nds} \<and>
     (\<exists>cs rs s1. populate_schema e nds rels initial_state = (Inr (cs, rs), s1) \<and>
        map uuid (classes doc) = map uuid (dict_values cs))"
    by auto
qed

text \<open>The theorem of C8 at two node records and a generator of different values.\<close>

theorem class_uuids_unique_witness:
  "inj_on (uuid4 \<lparr>uuid4 = (\<lambda>n. replicate (Suc n) CHR ''u''), random_draw = (\<lambda>n. 0)\<rparr>)
     {..<length [\<lparr>node_id = 1, name = ''Person''\<rparr>, \<lparr>node_id = 2, name = ''Company''\<rparr>]} \<and>
   fst (converter_init \<lparr>uuid4 = (\<lambda>n. replicate (Suc n) CHR ''u''), random_draw = (\<lambda>n. 0)\<rparr>
          [\<lparr>node_id = 1, name = ''Person''\<rparr>, \<lparr>node_id = 2, name = ''Company''\<rparr>] [] [])
     = Inr \<lparr>classes =
              [\<lparr>label = ''Person'', canvasPosition = \<lparr>pos_x = 100, pos_y = 50\<rparr>,
                icon = ''mdi-circle-outline'', color = ''#aaa'', uuid = ''u'',
                attributes = None\<rparr>,
               \<lparr>label = ''Company'', canvasPosition = \<lparr>pos_x = 100, pos_y = 50\<rparr>,
                icon = ''mdi-circle-outline'', color = ''#aaa'', uuid = ''uu'',
                attributes = None\<rparr>],
            relationships = []\<rparr> \<and>
   distinct (map uuid
              [\<lparr>label = ''Person'', canvasPosition = \<lparr>pos_x = 100, pos_y = 50\<rparr>,
                icon = ''mdi-circle-outline'', color = ''#aaa'', uuid = ''u'',
                attributes = None\<rparr>,
               \<lparr>label = ''Company'', canvasPosition = \<lparr>pos_x = 100, pos_y = 50\<rparr>,
                icon = ''mdi-circle-outline'', color = ''#aaa'', uuid = ''uu'',
                attributes = None\<rparr>])"
proof -
  have inj: "inj_on (uuid4 \<lparr>uuid4 = (\<lambda>n. replicate (Suc n) CHR ''u''), random_draw = (\<lambda>n. 0)\<rparr>)
     {..<length [\<lparr>node_id = 1, name = ''Person''\<rparr>, \<lparr>node_id = 2, name = ''Company''\<rparr>]}"
    by (auto simp: inj_on_def)
  have run: "fst (converter_init \<lparr>uuid4 = (\<lambda>n. replicate (Suc n) CHR ''u''), random_draw = (\<lambda>n. 0)\<rparr>
          [\<lparr>node_id = 1, name = ''Person''\<rparr>, \<lparr>node_id = 2, name = ''Company''\<rparr>] [] [])
     = Inr \<lparr>classes =
              [\<lparr>label = ''Person'', canvasPosition = \<lparr>pos_x = 100, pos_y = 50\<rparr>,
                icon = ''mdi-circle-outline'', color = ''#aaa'', uuid = ''u'',
                attributes = None\<rparr>,
               \<lparr>label = ''Company'', canvasPosition = \<lparr>pos_x = 100, pos_y = 50\<rparr>,
                icon = ''mdi-circle-outline'', color = ''#aaa'', uuid = ''uu'',
                attributes = None\<rparr>],
            relationships = []\<rparr>"
    by (simp add: run_defs)
  from inj run class_uuids_unique
    [where e = "\<lparr>uuid4 = (\<lambda>n. replicate (Suc n) CHR ''u''), random_draw = (\<lambda>n. 0)\<rparr>"
       and nds = "[\<lparr>node_id = 1, name = ''Person''\<rparr>, \<lparr>node_id = 2, name = ''Company''\<rparr>]" and rels = "[]" and props = "[]"
       and doc = "\<lparr>classes =
              [\<lparr>label = ''Person'', canvasPosition = \<lparr>pos_x = 100, pos_y = 50\<rparr>,
                icon = ''mdi-circle-outline'', color = ''#aaa'', uuid = ''u'',
                attributes = None\<rparr>,
               \<lparr>label = ''Company'', canvasPosition = \<lparr>pos_x = 100, pos_y = 50\<rparr>,
                icon = ''mdi-circle-outline'', color = ''#aaa'', uuid = ''uu'',
                attributes = None\<rparr>],
            relationships = []\<rparr>"]
  show ?thesis by simp
qed

end
